theory Spec2Isabelle
  imports Main "HOL-Library.Word"
begin

unbundle bit_operations_syntax

section \<open>Run-time failures\<close>

text \<open>
  A Go panic ends the goroutine (and the process); the model returns it as a value.
\<close>

datatype panic = DivideByZero | IndexOutOfRange | NilDereference

section \<open>Unbiased sampling of the rebroadcast interval\<close>

text \<open>
  \<open>randomUint16Number\<close> reads 16-bit values from the system's random source until one
  lies below \<open>limitRange\<close>. The reads are a parameter of the model: the list of the
  results of the successive calls of \<open>binary.Read\<close>, \<open>None\<close> for a call that failed
  (its error is discarded by the source, and the variable keeps its last value). The
  loop has no bound of its own, so a list that ends before a value is accepted gives
  \<open>None\<close>: the function has not returned within these reads.
\<close>

definition limitRange :: "16 word \<Rightarrow> 16 word" where
  "limitRange maxv = (65535 div maxv) * maxv"

fun randomUint16Number_loop ::
  "16 word \<Rightarrow> 16 word \<Rightarrow> 16 word \<Rightarrow> 16 word option list \<Rightarrow> 16 word option" where
  "randomUint16Number_loop maxv lim randomNumber [] = None"
| "randomUint16Number_loop maxv lim randomNumber (rd # reads) =
     (let randomNumber' = (case rd of None \<Rightarrow> randomNumber | Some v \<Rightarrow> v)
      in if randomNumber' < lim then Some (randomNumber' mod maxv)
         else randomUint16Number_loop maxv lim randomNumber' reads)"

text \<open>
  The values that the variable \<open>randomNumber\<close> takes, one after each read: the value
  read, or the value it had when the read failed.
\<close>

fun readValues :: "16 word \<Rightarrow> 16 word option list \<Rightarrow> 16 word list" where
  "readValues randomNumber [] = []"
| "readValues randomNumber (rd # reads) =
     (let randomNumber' = (case rd of None \<Rightarrow> randomNumber | Some v \<Rightarrow> v)
      in randomNumber' # readValues randomNumber' reads)"

definition randomUint16Number :: "16 word \<Rightarrow> 16 word option list \<Rightarrow> panic + 16 word option" where
  "randomUint16Number maxv reads =
     (if maxv = 0 then Inl DivideByZero
      else Inr (randomUint16Number_loop maxv (limitRange maxv) 0 reads))"

section \<open>The rebroadcast handler\<close>

text \<open>
  A hash (\<open>chainhash.Hash\<close>, 32 bytes) is read as a number. The inventory types of
  package \<open>wire\<close> that the server distinguishes are \<open>InvTypeTx\<close> and
  \<open>InvTypeBlock\<close>; any other value of the 32-bit type is \<open>InvTypeOther\<close>.
\<close>

type_synonym hash = nat

datatype invType = InvTypeTx | InvTypeBlock | InvTypeOther "32 word"

record invVect =
  Type :: invType
  Hash :: hash

text \<open>
  Of a transaction (\<open>wire.MsgTx\<close> inside \<open>dcrutil.Tx\<close>) the handler reads the value
  of the outputs and the previous outpoint's hash of the inputs.
\<close>

record txOut =
  Value :: int

record txIn =
  PreviousOutPoint_Hash :: hash

record msgTx =
  TxIn :: "txIn list"
  TxOut :: "txOut list"
  Expiry :: nat

text \<open>
  The data of a pending inventory is an \<open>interface{}\<close>: a transaction
  (\<open>*dcrutil.Tx\<close>), or anything else (a block header, for instance).
\<close>

datatype data = TxData msgTx | OtherData nat

datatype txType = TxTypeRegular | TxTypeSStx | TxTypeSSGen | TxTypeSSRtx

text \<open>
  The chain and the stake package are collaborators outside the server: the handler
  sees them through these operations. \<open>CalcNextRequiredStakeDifficulty\<close> returns
  an error (\<open>Inl\<close>) or the difficulty.
\<close>

record chain =
  BestSnapshot_Height :: int
  CalcNextRequiredStakeDifficulty :: "string + int"
  CheckLiveTicket :: "hash \<Rightarrow> bool"
  DetermineTxType :: "msgTx \<Rightarrow> txType"
  IsExpired :: "msgTx \<Rightarrow> int \<Rightarrow> bool"

text \<open>
  The body of the prune loop for one transaction: \<open>Inr True\<close> when the entry is
  deleted, \<open>Inr False\<close> when it stays. \<open>TxOut[0]\<close> and \<open>TxIn[0]\<close> on an empty
  slice panic; \<open>&&\<close> evaluates its right operand only when the left one holds.
\<close>

definition pruneEntry :: "chain \<Rightarrow> int \<Rightarrow> msgTx \<Rightarrow> panic + bool" where
  "pruneEntry ch nextStakeDiff tx =
     (let txType = DetermineTxType ch tx in
      if txType = TxTypeSStx \<and> TxOut tx = [] then Inl IndexOutOfRange
      else if txType = TxTypeSStx \<and> Value (hd (TxOut tx)) \<noteq> nextStakeDiff then Inr True
      else if txType = TxTypeSStx \<and> IsExpired ch tx (BestSnapshot_Height ch) then Inr True
      else if txType = TxTypeSSRtx then
        (case TxIn tx of
           [] \<Rightarrow> Inl IndexOutOfRange
         | i # _ \<Rightarrow>
             (let refSStxHash = PreviousOutPoint_Hash i in
              if \<not> CheckLiveTicket ch refSStxHash then Inr True else Inr False))
      else Inr False)"

text \<open>
  \<open>pendingInvs\<close> is a Go map; the model keeps it as an association list whose order
  is the order in which \<open>range\<close> visits the entries. Deleting the visited entry
  during the iteration is allowed in Go and does not disturb it.
\<close>

type_synonym pending = "(invVect \<times> data) list"

fun pruneLoop :: "chain \<Rightarrow> int \<Rightarrow> pending \<Rightarrow> panic + pending" where
  "pruneLoop ch nextStakeDiff [] = Inr []"
| "pruneLoop ch nextStakeDiff ((iv, d) # rest) =
     (case d of
        OtherData _ \<Rightarrow>
          (case pruneLoop ch nextStakeDiff rest of
             Inl p \<Rightarrow> Inl p
           | Inr rest' \<Rightarrow> Inr ((iv, d) # rest'))
      | TxData tx \<Rightarrow>
          (case pruneEntry ch nextStakeDiff tx of
             Inl p \<Rightarrow> Inl p
           | Inr deleted \<Rightarrow>
               (case pruneLoop ch nextStakeDiff rest of
                  Inl p \<Rightarrow> Inl p
                | Inr rest' \<Rightarrow> Inr (if deleted then rest' else (iv, d) # rest'))))"

datatype modifyRebroadcastInv =
    BroadcastInventoryAdd invVect data
  | BroadcastInventoryDel invVect
  | BroadcastPruneInventory

text \<open>
  What the \<open>select\<close> of the handler can receive: a message on
  \<open>modifyRebroadcastInv\<close>, or the timer firing; the reads that
  \<open>randomUint16Number\<close> then makes come with the event.
\<close>

datatype rebroadcastEvent =
    Modify modifyRebroadcastInv
  | TimerFired "16 word option list"

record relayMsg =
  invVect :: invVect
  data :: data
  immediate :: bool

text \<open>
  The state of the handler: the pending inventory, the number of seconds until the
  timer fires next, and the calls of \<open>RelayInventory\<close> made so far.
\<close>

record rebroadcastState =
  pendingInvs :: pending
  timer :: nat
  relayed :: "relayMsg list"

definition rebroadcastInit :: rebroadcastState where
  "rebroadcastInit = \<lparr>pendingInvs = [], timer = 5 * 60, relayed = []\<rparr>"

definition pendingSet :: "pending \<Rightarrow> invVect \<Rightarrow> data \<Rightarrow> pending" where
  "pendingSet m iv d = (if iv \<in> fst ` set m then map (\<lambda>(k, v). if k = iv then (k, d) else (k, v)) m
                        else m @ [(iv, d)])"

definition pendingDelete :: "pending \<Rightarrow> invVect \<Rightarrow> pending" where
  "pendingDelete m iv = filter (\<lambda>(k, v). k \<noteq> iv) m"

text \<open>
  One round of the handler's loop. \<open>Inr None\<close>: the handler has not come back from
  \<open>randomUint16Number\<close> within the reads given.
\<close>

fun rebroadcastHandler :: "chain \<Rightarrow> rebroadcastState \<Rightarrow> rebroadcastEvent \<Rightarrow> panic + rebroadcastState option" where
  "rebroadcastHandler ch st (Modify (BroadcastInventoryAdd iv d)) =
     Inr (Some (st\<lparr>pendingInvs := pendingSet (pendingInvs st) iv d\<rparr>))"
| "rebroadcastHandler ch st (Modify (BroadcastInventoryDel iv)) =
     Inr (Some (st\<lparr>pendingInvs := pendingDelete (pendingInvs st) iv\<rparr>))"
| "rebroadcastHandler ch st (Modify BroadcastPruneInventory) =
     (case CalcNextRequiredStakeDifficulty ch of
        Inl err \<Rightarrow> Inr (Some st)
      | Inr nextStakeDiff \<Rightarrow>
          (case pruneLoop ch nextStakeDiff (pendingInvs st) of
             Inl p \<Rightarrow> Inl p
           | Inr pending' \<Rightarrow> Inr (Some (st\<lparr>pendingInvs := pending'\<rparr>))))"
| "rebroadcastHandler ch st (TimerFired reads) =
     (let st' = st\<lparr>relayed := relayed st @
                   map (\<lambda>(iv, d). \<lparr>invVect = iv, data = d, immediate = False\<rparr>) (pendingInvs st)\<rparr>
      in case randomUint16Number 1800 reads of
           Inl p \<Rightarrow> Inl p
         | Inr None \<Rightarrow> Inr None
         | Inr (Some r) \<Rightarrow> Inr (Some (st'\<lparr>timer := unat r\<rparr>)))"

section \<open>Configuration\<close>

text \<open>
  The fields of the global configuration \<open>cfg\<close> and of \<open>activeNetParams\<close> that
  the modelled functions read. \<open>DefaultPort\<close> is the result of
  \<open>strconv.ParseUint(activeNetParams.DefaultPort, 10, 16)\<close>, \<open>None\<close> when the
  string does not parse.
\<close>

record config =
  DisableBanning :: bool
  BanThreshold :: "32 word"
  BanDuration :: nat
  MaxSameIP :: int
  MaxPeers :: int
  SimNet :: bool
  DisableListen :: bool
  Proxy :: string
  OnionProxy :: string
  NoDiscoverIP :: bool
  ExternalIPs :: "string list"
  Listeners :: "string list"
  Upnp :: bool
  NetName :: string
  DefaultPort :: "16 word option"

section \<open>Misbehaviour score\<close>

text \<open>
  What a server peer does to the world around it, in the order it does it: calls of
  \<open>server.BanPeer\<close> and \<open>Peer.Disconnect\<close>, sends and receives on the
  completion channels of a getdata reply, and messages handed to the codec's send queue
  with their completion channel. Calls of the logger are left out.

  The channels of one getdata reply are \<open>doneChan\<close> and the channels made inside the
  loop; \<open>Fresh i\<close> is the one made in the iteration with index \<open>i\<close>.
\<close>

datatype chan = DoneChan | Fresh nat

datatype message =
    MsgTx msgTx
  | MsgBlock nat
  | MsgInv "invVect list"
  | MsgNotFound "invVect list"

datatype action =
    BanPeer
  | Disconnect
  | ChanSend chan
  | ChanRecv chan
  | QueueMessage message "chan option"

text \<open>
  \<open>connmgr.DynamicBanScore\<close> lives outside the server. Its two operations are
  parameters, over any type \<open>'b\<close> of scores: \<open>Score_Int\<close> (the method \<open>Int\<close>) reads the score at the present
  moment and leaves it as it is, \<open>Score_Increase\<close> adds to the persistent and the decaying
  part and returns the new score with its value.
\<close>

record 'b banScoreOps =
  Score_Int :: "'b \<Rightarrow> 32 word"
  Score_Increase :: "'b \<Rightarrow> 32 word \<Rightarrow> 32 word \<Rightarrow> 'b \<times> 32 word"

definition addBanScore ::
  "config \<Rightarrow> 'b banScoreOps \<Rightarrow> bool \<Rightarrow> 'b \<Rightarrow> 32 word \<Rightarrow> 32 word \<Rightarrow> 'b \<times> action list" where
  "addBanScore cfg ops isWhitelisted banScore persistent transient =
     (if DisableBanning cfg then (banScore, [])
      else if isWhitelisted then (banScore, [])
      else
        let warnThreshold = drop_bit 1 (BanThreshold cfg) in
        if transient = 0 \<and> persistent = 0 then
          (let score = Score_Int ops banScore in (banScore, []))
        else
          (case Score_Increase ops banScore persistent transient of
             (banScore', score) \<Rightarrow>
               if score > warnThreshold then
                 (if score > BanThreshold cfg then (banScore', [BanPeer, Disconnect])
                  else (banScore', []))
               else (banScore', [])))"

section \<open>Serving getdata\<close>

type_synonym error = string

text \<open>
  The mempool and the chain as the getdata path sees them: fetching a transaction or a
  block by hash gives an error (\<open>Inl\<close>) or the item, and \<open>BestSnapshot\<close> gives the
  hash of the tip. A block is identified by a number.
\<close>

record stores =
  FetchTransaction :: "hash \<Rightarrow> error + msgTx"
  BlockByHash :: "hash \<Rightarrow> error + nat"
  BestSnapshot_Hash :: hash

definition pushTxMsg ::
  "stores \<Rightarrow> hash \<Rightarrow> chan option \<Rightarrow> chan option \<Rightarrow> error option \<times> action list" where
  "pushTxMsg s hash doneChan waitChan =
     (case FetchTransaction s hash of
        Inl err \<Rightarrow> (Some err, (case doneChan of None \<Rightarrow> [] | Some c \<Rightarrow> [ChanSend c]))
      | Inr tx \<Rightarrow>
          (None,
           (case waitChan of None \<Rightarrow> [] | Some w \<Rightarrow> [ChanRecv w])
           @ [QueueMessage (MsgTx tx) doneChan]))"

text \<open>
  \<open>pushBlockMsg\<close> also reads and clears the peer's \<open>continueHash\<close>; the new value is
  the second component of the result.
\<close>

definition pushBlockMsg ::
  "stores \<Rightarrow> hash option \<Rightarrow> hash \<Rightarrow> chan option \<Rightarrow> chan option
     \<Rightarrow> error option \<times> hash option \<times> action list" where
  "pushBlockMsg s continueHash hash doneChan waitChan =
     (case BlockByHash s hash of
        Inl err \<Rightarrow>
          (Some err, continueHash, (case doneChan of None \<Rightarrow> [] | Some c \<Rightarrow> [ChanSend c]))
      | Inr block \<Rightarrow>
          (let sendInv = (continueHash = Some hash);
               dc = (if \<not> sendInv then doneChan else None)
           in (None,
               (if sendInv then None else continueHash),
               (case waitChan of None \<Rightarrow> [] | Some w \<Rightarrow> [ChanRecv w])
               @ [QueueMessage (MsgBlock block) dc]
               @ (if sendInv
                  then [QueueMessage
                          (MsgInv [\<lparr>Type = InvTypeBlock, Hash = BestSnapshot_Hash s\<rparr>]) doneChan]
                  else []))))"

text \<open>
  The variables of the loop of \<open>OnGetData\<close>, with the peer's \<open>continueHash\<close> and the
  actions so far. \<open>chans\<close> records the value of the local variable \<open>c\<close> of each
  iteration, in order.
\<close>

record getDataState =
  notFound :: "invVect list"
  numAdded :: nat
  waitChan :: "chan option"
  continueHash :: "hash option"
  actions :: "action list"
  chans :: "chan option list"

text \<open>One iteration: the item \<open>iv\<close> at index \<open>i\<close> of a list of \<open>len\<close> items.\<close>

definition getDataItem :: "stores \<Rightarrow> nat \<Rightarrow> nat \<Rightarrow> invVect \<Rightarrow> getDataState \<Rightarrow> getDataState" where
  "getDataItem s len i iv st =
     (let c = (if i = len - 1 \<and> notFound st = [] then Some DoneChan
               else if (i + 1) mod 3 = 0 then Some (Fresh i)
               else None);
          st = st\<lparr>chans := chans st @ [c]\<rparr>
      in case (case Type iv of
                 InvTypeTx \<Rightarrow>
                   (case pushTxMsg s (Hash iv) c (waitChan st) of
                      (err, acts) \<Rightarrow> Some (err, continueHash st, acts))
               | InvTypeBlock \<Rightarrow> Some (pushBlockMsg s (continueHash st) (Hash iv) c (waitChan st))
               | InvTypeOther _ \<Rightarrow> None) of
           None \<Rightarrow> st
         | Some (err, continueHash', acts) \<Rightarrow>
             (let st = st\<lparr>continueHash := continueHash', actions := actions st @ acts\<rparr>;
                  st = (if err \<noteq> None
                        then st\<lparr>notFound := notFound st @ [iv],
                                actions := actions st @
                                  (if i = len - 1 \<and> c \<noteq> None then [ChanRecv (the c)] else [])\<rparr>
                        else st)
              in st\<lparr>numAdded := numAdded st + 1, waitChan := c\<rparr>))"

fun getDataLoop :: "stores \<Rightarrow> nat \<Rightarrow> nat \<Rightarrow> invVect list \<Rightarrow> getDataState \<Rightarrow> getDataState" where
  "getDataLoop s len i [] st = st"
| "getDataLoop s len i (iv # ivs) st = getDataLoop s len (i + 1) ivs (getDataItem s len i iv st)"

text \<open>\<open>wire.MaxInvPerMsg\<close>, the most inventory vectors one message may carry.\<close>

definition MaxInvPerMsg :: "32 word" where
  "MaxInvPerMsg = 50000"

text \<open>
  \<open>OnGetData\<close> for a peer with the given whitelist flag, ban score and continue
  hash. The result is the new ban score and the final state of the loop variables, whose
  \<open>actions\<close> are everything the callback did, up to its return.
\<close>

definition OnGetData ::
  "config \<Rightarrow> 'b banScoreOps \<Rightarrow> stores \<Rightarrow> bool \<Rightarrow> 'b \<Rightarrow> hash option \<Rightarrow> invVect list
     \<Rightarrow> 'b \<times> getDataState" where
  "OnGetData cfg ops s isWhitelisted banScore contHash invList =
     (if length invList = 0
      then (banScore,
            \<lparr>notFound = [], numAdded = 0, waitChan = None, continueHash = contHash,
             actions = [], chans = []\<rparr>)
      else
        let len = length invList in
        case addBanScore cfg ops isWhitelisted banScore 0
               (of_nat len * 99 div MaxInvPerMsg) of
          (banScore', banActs) \<Rightarrow>
            (let st = getDataLoop s len 0 invList
                        \<lparr>notFound = [], numAdded = 0, waitChan = None, continueHash = contHash,
                         actions = banActs, chans = []\<rparr>;
                 st = (if length (notFound st) \<noteq> 0
                       then st\<lparr>actions := actions st @
                                  [QueueMessage (MsgNotFound (notFound st)) (Some DoneChan)]\<rparr>
                       else st);
                 st = (if numAdded st > 0
                       then st\<lparr>actions := actions st @ [ChanRecv DoneChan]\<rparr>
                       else st)
             in (banScore', st)))"

text \<open>
  An item is known when its type is one the loop serves, and a miss when it is known and
  the store has no such transaction or block.
\<close>

definition isKnown :: "invVect \<Rightarrow> bool" where
  "isKnown iv = (case Type iv of InvTypeTx \<Rightarrow> True | InvTypeBlock \<Rightarrow> True | InvTypeOther _ \<Rightarrow> False)"

definition isMiss :: "stores \<Rightarrow> invVect \<Rightarrow> bool" where
  "isMiss s iv =
     (case Type iv of
        InvTypeTx \<Rightarrow> isl (FetchTransaction s (Hash iv))
      | InvTypeBlock \<Rightarrow> isl (BlockByHash s (Hash iv))
      | InvTypeOther _ \<Rightarrow> False)"

text \<open>
  The completion channel of the item at index \<open>i\<close> in the words of the
  specification: the done channel for the last item when nothing before it was missed,
  else a fresh channel for every third item, else none.
\<close>

definition specChan :: "stores \<Rightarrow> invVect list \<Rightarrow> nat \<Rightarrow> chan option" where
  "specChan s invList i =
     (if i = length invList - 1 \<and> filter (isMiss s) (take i invList) = [] then Some DoneChan
      else if (i + 1) mod 3 = 0 then Some (Fresh i)
      else None)"

text \<open>Example values: a configuration, a score that is a plain counter, and stores.\<close>

definition exampleConfig :: config where
  "exampleConfig =
     \<lparr>DisableBanning = False, BanThreshold = 100, BanDuration = 86400, MaxSameIP = 5,
      MaxPeers = 125, SimNet = False, DisableListen = False, Proxy = [], OnionProxy = [],
      NoDiscoverIP = False, ExternalIPs = [], Listeners = [''0.0.0.0:9108''], Upnp = False,
      NetName = ''mainnet'', DefaultPort = Some 9108\<rparr>"

definition counterOps :: "(32 word) banScoreOps" where
  "counterOps = \<lparr>Score_Int = (\<lambda>b. b), Score_Increase = (\<lambda>b p t. (b + p + t, b + p + t))\<rparr>"

definition exampleStores :: stores where
  "exampleStores =
     \<lparr>FetchTransaction = (\<lambda>h. if h < 10 then Inr \<lparr>TxIn = [], TxOut = [], Expiry = 0\<rparr>
                                else Inl ''not in pool''),
      BlockByHash = (\<lambda>h. if h < 10 then Inr h else Inl ''no such block''),
      BestSnapshot_Hash = 9\<rparr>"

definition exampleInvList :: "invVect list" where
  "exampleInvList =
     [\<lparr>Type = InvTypeTx, Hash = 1\<rparr>, \<lparr>Type = InvTypeTx, Hash = 2\<rparr>,
      \<lparr>Type = InvTypeBlock, Hash = 20\<rparr>]"

text \<open>
  A ledger of the signals on the completion channels, to follow a trace of actions:
  a send adds a signal to its channel, and so does a message queued with a completion
  channel (the codec signals it once the message is written); a receive takes one, and
  blocks for ever when none was provided, which the ledger returns as \<open>None\<close>.
\<close>

fun runSignals :: "(chan \<Rightarrow> nat) \<Rightarrow> action list \<Rightarrow> (chan \<Rightarrow> nat) option" where
  "runSignals b [] = Some b"
| "runSignals b (ChanRecv c # as) =
     (if b c = 0 then None else runSignals (b(c := b c - 1)) as)"
| "runSignals b (ChanSend c # as) = runSignals (b(c := b c + 1)) as"
| "runSignals b (QueueMessage m (Some c) # as) = runSignals (b(c := b c + 1)) as"
| "runSignals b (QueueMessage m None # as) = runSignals b as"
| "runSignals b (BanPeer # as) = runSignals b as"
| "runSignals b (Disconnect # as) = runSignals b as"

text \<open>The channel a push will wait on, if any, holds a signal in the ledger \<open>b\<close>.\<close>

definition fed :: "(chan \<Rightarrow> nat) \<Rightarrow> chan option \<Rightarrow> bool" where
  "fed b w = (case w of None \<Rightarrow> True | Some c \<Rightarrow> b c \<ge> 1)"

section \<open>Peers and the version handshake\<close>

text \<open>
  A network address (\<open>wire.NetAddress\<close>): the IP as its bytes, the port and the
  service flags. The peer's id is the 32-bit number the codec assigns.
\<close>

type_synonym ip = "8 word list"

record netAddress =
  IP :: ip
  Port :: "16 word"
  NA_Services :: "64 word"

text \<open>
  The fields of \<open>serverPeer\<close>, and of the embedded \<open>peer.Peer\<close> as its methods
  report them, that the modelled functions use. \<open>NA\<close> is the address of a connected
  peer, which the codec has set by then. \<open>connReq\<close> holds the id of the connection
  request, \<open>None\<close> for \<open>nil\<close>. \<open>knownAddresses\<close> lists the keys of the address
  cache, newest first.
\<close>

record serverPeer =
  ID :: "32 word"
  Inbound :: bool
  persistent :: bool
  isWhitelisted :: bool
  Addr :: string
  NA :: netAddress
  VersionKnown :: bool
  VerAckReceived :: bool
  Connected :: bool
  connReq :: "nat option"
  peerNa :: "netAddress option"
  disableRelayTx :: bool
  knownAddresses :: "string list"

record msgVersion =
  ProtocolVersion :: int
  Services :: "64 word"
  AddrYou :: netAddress
  DisableRelayTx :: bool
  Timestamp :: nat

record msgReject =
  Cmd :: string
  Code :: "8 word"
  Reason :: string

text \<open>Constants of package \<open>wire\<close>.\<close>

definition SFNodeNetwork :: "64 word" where
  "SFNodeNetwork = 1"

definition InitialProcotolVersion :: int where
  "InitialProcotolVersion = 1"

definition RejectNonstandard :: "8 word" where
  "RejectNonstandard = 0x40"

definition maxKnownAddrsPerPeer :: nat where
  "maxKnownAddrsPerPeer = 10000"

definition hasServices :: "64 word \<Rightarrow> 64 word \<Rightarrow> bool" where
  "hasServices advertised desired = (advertised AND desired = desired)"

text \<open>\<open>fmt.Sprintf("%#x", n)\<close> for an unsigned number: \<open>0x\<close> and the lower-case digits.\<close>

definition hexDigit :: "nat \<Rightarrow> char" where
  "hexDigit d = ''0123456789abcdef'' ! d"

fun hexDigits :: "nat \<Rightarrow> nat \<Rightarrow> string" where
  "hexDigits 0 n = []"
| "hexDigits (Suc fuel) n =
     (if n < 16 then [hexDigit n] else hexDigits fuel (n div 16) @ [hexDigit (n mod 16)])"

definition sprintf_hex :: "64 word \<Rightarrow> string" where
  "sprintf_hex w = ''0x'' @ hexDigits 16 (unat w)"

text \<open>
  What \<open>OnVersion\<close> asks of, and tells, the address manager, the block manager, the
  time source, the codec and the server. The questions are parameters; the calls that
  change something outside the peer are recorded in order.
\<close>

record versionEnv =
  IsCurrent :: bool
  GetBestLocalAddress :: "netAddress \<Rightarrow> netAddress"
  IsRoutable :: "netAddress \<Rightarrow> bool"
  NeedMoreAddresses :: bool
  NetAddressKey :: "netAddress \<Rightarrow> string"
  PushAddrMsg :: "netAddress list \<Rightarrow> error + netAddress list"

datatype versionAction =
    SetServices netAddress "64 word"
  | QueueGetAddr
  | Good netAddress
  | PeerDisconnect
  | AddTimeSample string nat
  | BlockManagerNewPeer
  | AddPeer

text \<open>
  Modelled from the spec: the cache of package \<open>lru\<close> behind \<open>knownAddresses\<close> is
  not among the sources. It is a bounded cache of address keys; adding a key that is
  present does not change the size, and beyond the limit the oldest entry is evicted.
\<close>

definition lruAdd :: "nat \<Rightarrow> string list \<Rightarrow> string \<Rightarrow> string list" where
  "lruAdd limit cache k = take limit (k # filter (\<lambda>x. x \<noteq> k) cache)"

definition addKnownAddresses :: "versionEnv \<Rightarrow> serverPeer \<Rightarrow> netAddress list \<Rightarrow> serverPeer" where
  "addKnownAddresses env sp addresses =
     sp\<lparr>knownAddresses :=
          fold (\<lambda>na cache. lruAdd maxKnownAddrsPerPeer cache (NetAddressKey env na))
               addresses (knownAddresses sp)\<rparr>"

definition addressKnown :: "versionEnv \<Rightarrow> serverPeer \<Rightarrow> netAddress \<Rightarrow> bool" where
  "addressKnown env sp na = (NetAddressKey env na \<in> set (knownAddresses sp))"

definition pushAddrMsg ::
  "versionEnv \<Rightarrow> serverPeer \<Rightarrow> netAddress list \<Rightarrow> serverPeer \<times> versionAction list" where
  "pushAddrMsg env sp addresses =
     (let addrs = filter (\<lambda>addr. \<not> addressKnown env sp addr) addresses in
      case PushAddrMsg env addrs of
        Inl err \<Rightarrow> (sp, [PeerDisconnect])
      | Inr known \<Rightarrow> (addKnownAddresses env sp known, []))"

text \<open>
  \<open>OnVersion\<close>: the reject message it returns (\<open>None\<close> for \<open>nil\<close>), the peer with
  its fields updated, and the calls it made.
\<close>

definition OnVersion ::
  "config \<Rightarrow> versionEnv \<Rightarrow> serverPeer \<Rightarrow> msgVersion
     \<Rightarrow> msgReject option \<times> serverPeer \<times> versionAction list" where
  "OnVersion cfg env sp msg =
     (let isInbound = Inbound sp;
          remoteAddr = NA sp;
          acts = (if \<not> SimNet cfg \<and> \<not> isInbound
                  then [SetServices remoteAddr (Services msg)] else [])
      in
      if ProtocolVersion msg < InitialProcotolVersion then (None, sp, acts)
      else
        let wantServices = SFNodeNetwork in
        if \<not> isInbound \<and> \<not> hasServices (Services msg) wantServices then
          (let missingServices = wantServices AND NOT (Services msg);
               reason = ''required services '' @ sprintf_hex missingServices @ '' not offered''
           in (Some \<lparr>Cmd = ''version'', Code = RejectNonstandard, Reason = reason\<rparr>, sp, acts))
        else
          let (sp, acts) =
                (if \<not> SimNet cfg \<and> \<not> isInbound then
                   (let (sp, pushActs) =
                          (if \<not> DisableListen cfg \<and> IsCurrent env then
                             (let lna = GetBestLocalAddress env remoteAddr in
                              if IsRoutable env lna then pushAddrMsg env sp [lna] else (sp, []))
                           else (sp, []))
                    in (sp, acts @ pushActs
                            @ (if NeedMoreAddresses env then [QueueGetAddr] else [])
                            @ [Good remoteAddr]))
                 else (sp, acts));
              sp = (if \<not> Inbound sp then sp\<lparr>peerNa := Some (AddrYou msg)\<rparr> else sp);
              sp = sp\<lparr>disableRelayTx := DisableRelayTx msg\<rparr>
          in (None, sp,
              acts @ [AddTimeSample (Addr sp) (Timestamp msg), BlockManagerNewPeer, AddPeer]))"

text \<open>Example values: an outbound peer, its environment and two version messages.\<close>

definition exampleAddr :: netAddress where
  "exampleAddr = \<lparr>IP = [203, 0, 113, 7], Port = 9108, NA_Services = 0\<rparr>"

definition examplePeer :: serverPeer where
  "examplePeer =
     \<lparr>ID = 1, Inbound = False, persistent = False, isWhitelisted = False,
      Addr = ''203.0.113.7:9108'', NA = exampleAddr, VersionKnown = True,
      VerAckReceived = False, Connected = True, connReq = Some 1, peerNa = None,
      disableRelayTx = False, knownAddresses = []\<rparr>"

definition exampleVersionEnv :: versionEnv where
  "exampleVersionEnv =
     \<lparr>IsCurrent = True, GetBestLocalAddress = (\<lambda>na. na), IsRoutable = (\<lambda>na. True),
      NeedMoreAddresses = True, NetAddressKey = (\<lambda>na. ''key''),
      PushAddrMsg = (\<lambda>nas. Inr nas)\<rparr>"

definition exampleVersion :: "64 word \<Rightarrow> int \<Rightarrow> msgVersion" where
  "exampleVersion services pver =
     \<lparr>ProtocolVersion = pver, Services = services, AddrYou = exampleAddr,
      DisableRelayTx = False, Timestamp = 0\<rparr>"

section \<open>The peer state and the peer handler\<close>

text \<open>
  The Go maps of the peer state that are iterated over are association lists with
  distinct keys: an assignment replaces the value of a key that is present and adds the
  pair otherwise, \<open>len\<close> is the length, and \<open>range\<close> visits the pairs in the order
  of the list, which stands for whatever order the runtime picks.
\<close>

definition mapAssign :: "('k \<times> 'v) list \<Rightarrow> 'k \<Rightarrow> 'v \<Rightarrow> ('k \<times> 'v) list" where
  "mapAssign m k v =
     (if k \<in> fst ` set m then map (\<lambda>(k', v'). if k' = k then (k, v) else (k', v')) m
      else m @ [(k, v)])"

definition mapDelete :: "('k \<times> 'v) list \<Rightarrow> 'k \<Rightarrow> ('k \<times> 'v) list" where
  "mapDelete m k = filter (\<lambda>(k', v'). k' \<noteq> k) m"

datatype networkAddress = IPv4Address | IPv6Address

type_synonym peers = "(32 word \<times> serverPeer) list"

record peerState =
  inboundPeers :: peers
  outboundPeers :: peers
  persistentPeers :: peers
  banned :: "string \<rightharpoonup> nat"
  outboundGroups :: "string \<rightharpoonup> int"
  suggestions :: "networkAddress \<Rightarrow> (string \<times> 32 word) list"

text \<open>
  Functions of the standard library and of package \<open>addrmgr\<close> that the handler
  calls: \<open>net.SplitHostPort\<close>; on an IP, \<open>Equal\<close>, \<open>IsLoopback\<close>, \<open>String\<close>, and
  whether \<open>To4\<close> and \<open>To16\<close> are not nil; \<open>GroupKey\<close>, \<open>IsPeerNaValid\<close> and
  \<open>HostToNetAddress\<close>; and the server's own \<open>addrStringToNetAddr\<close>, which resolves
  names.
\<close>

record netenv =
  SplitHostPort :: "string \<Rightarrow> error + string \<times> string"
  IP_Equal :: "ip \<Rightarrow> ip \<Rightarrow> bool"
  IP_IsLoopback :: "ip \<Rightarrow> bool"
  IP_String :: "ip \<Rightarrow> string"
  IP_To4 :: "ip \<Rightarrow> bool"
  IP_To16 :: "ip \<Rightarrow> bool"
  GroupKey :: "netAddress \<Rightarrow> string"
  IsPeerNaValid :: "netAddress \<Rightarrow> netAddress \<Rightarrow> bool"
  HostToNetAddress :: "string \<Rightarrow> 16 word \<Rightarrow> 64 word \<Rightarrow> error + netAddress"
  addrStringToNetAddr :: "string \<Rightarrow> error + string"

datatype addressPriority = InterfacePrio | BoundPrio | UpnpPrio | HTTPPrio | ManualPrio

text \<open>
  Calls the handler makes on a peer, the connection manager and the address manager.
\<close>

datatype loopAction =
    DisconnectPeer "32 word"
  | ConnManagerDisconnect nat
  | ConnManagerRemove nat
  | ConnManagerConnect string bool
  | AddrManagerConnected netAddress

text \<open>
  What the peer handler works on: its peer state, the shutdown flag and the services of
  the server, the local addresses of the address manager with their priority, and the
  calls made so far.
\<close>

record server =
  state :: peerState
  shutdown :: bool
  services :: "64 word"
  localAddresses :: "(netAddress \<times> addressPriority) list"
  calls :: "loopAction list"

text \<open>
  Modelled from the spec: the address manager (package \<open>addrmgr\<close>) is not among the
  sources. An address is registered as a local address with a priority, and
  \<open>HasLocalAddress\<close> tells whether it is already known.
\<close>

definition HasLocalAddress :: "server \<Rightarrow> netAddress \<Rightarrow> bool" where
  "HasLocalAddress srv na = (na \<in> fst ` set (localAddresses srv))"

definition AddLocalAddress :: "server \<Rightarrow> netAddress \<Rightarrow> addressPriority \<Rightarrow> server" where
  "AddLocalAddress srv na priority = srv\<lparr>localAddresses := localAddresses srv @ [(na, priority)]\<rparr>"

definition ConnectionsWithIP :: "netenv \<Rightarrow> peerState \<Rightarrow> ip \<Rightarrow> int" where
  "ConnectionsWithIP env ps ip =
     int (length (filter (\<lambda>(k, p). IP_Equal env ip (IP (NA p))) (inboundPeers ps)))
     + int (length (filter (\<lambda>(k, p). IP_Equal env ip (IP (NA p))) (outboundPeers ps)))
     + int (length (filter (\<lambda>(k, p). IP_Equal env ip (IP (NA p))) (persistentPeers ps)))"

definition Count :: "peerState \<Rightarrow> int" where
  "Count ps = int (length (inboundPeers ps)) + int (length (outboundPeers ps))
              + int (length (persistentPeers ps))"

text \<open>Reading a counter of a Go map gives 0 for a key that is absent.\<close>

definition groupCount :: "(string \<rightharpoonup> int) \<Rightarrow> string \<Rightarrow> int" where
  "groupCount m k = (case m k of None \<Rightarrow> 0 | Some n \<Rightarrow> n)"

definition groupIncr :: "(string \<rightharpoonup> int) \<Rightarrow> string \<Rightarrow> (string \<rightharpoonup> int)" where
  "groupIncr m k = m(k \<mapsto> groupCount m k + 1)"


text \<open>
  The loop of \<open>ResolveLocalAddress\<close> over the suggestions of one network: a
  suggestion replaces the best one while that is still the empty string, or when its
  tally (a signed 32-bit number) is greater.
\<close>

fun bestSuggestionLoop :: "(string \<times> 32 word) list \<Rightarrow> string \<Rightarrow> 32 word \<Rightarrow> string \<times> 32 word" where
  "bestSuggestionLoop [] bestSuggestion bestTally = (bestSuggestion, bestTally)"
| "bestSuggestionLoop ((suggestion, tally) # rest) bestSuggestion bestTally =
     (if bestSuggestion = [] \<or> bestTally <s tally
      then bestSuggestionLoop rest suggestion tally
      else bestSuggestionLoop rest bestSuggestion bestTally)"

definition ResolveLocalAddress :: "netenv \<Rightarrow> networkAddress \<Rightarrow> server \<Rightarrow> 64 word \<Rightarrow> 16 word \<Rightarrow> server" where
  "ResolveLocalAddress env netKey srv servicesFlag port =
     (let count = length (suggestions (state srv) netKey) in
      if count = 0 then srv
      else
        case bestSuggestionLoop (suggestions (state srv) netKey) [] 0 of
          (bestSuggestion, bestTally) \<Rightarrow>
            if bestTally <s 2 then srv
            else
              (case HostToNetAddress env bestSuggestion port servicesFlag of
                 Inl err \<Rightarrow> srv
               | Inr na \<Rightarrow>
                   if \<not> HasLocalAddress srv na then AddLocalAddress srv na ManualPrio
                   else srv))"

definition peerDisconnect :: "server \<Rightarrow> serverPeer \<Rightarrow> server" where
  "peerDisconnect srv sp = srv\<lparr>calls := calls srv @ [DisconnectPeer (ID sp)]\<rparr>"

definition simNetName :: string where
  "simNetName = ''simnet''"

definition regNetName :: string where
  "regNetName = ''regnet''"

text \<open>
  \<open>state.suggestions[netKey][id]++\<close>, with \<open>host\<close> for the source's \<open>id\<close>: an
  absent host starts from 0.
\<close>

definition suggestionIncr ::
  "peerState \<Rightarrow> networkAddress \<Rightarrow> string \<Rightarrow> peerState" where
  "suggestionIncr ps netKey host =
     ps\<lparr>suggestions := (suggestions ps)
          (netKey := mapAssign (suggestions ps netKey) host
             ((case map_of (suggestions ps netKey) host of None \<Rightarrow> 0 | Some t \<Rightarrow> t) + 1))\<rparr>"

text \<open>
  \<open>handleAddPeerMsg\<close> in three parts, in the order of the source: the checks up to
  the ban list, the limits and the registration, and the address discovery for an
  outbound peer that was registered.
\<close>

definition handleAddPeerMsg_discover :: "config \<Rightarrow> netenv \<Rightarrow> server \<Rightarrow> serverPeer \<Rightarrow> bool \<times> server" where
  "handleAddPeerMsg_discover cfg env srv sp =
     (if (Proxy cfg \<noteq> [] \<or> OnionProxy cfg \<noteq> []) \<or> NoDiscoverIP cfg
         \<or> length (ExternalIPs cfg) > 0
         \<or> (DisableListen cfg \<or> length (Listeners cfg) = 0) \<or> Upnp cfg
         \<or> NetName cfg = simNetName \<or> NetName cfg = regNetName
      then (True, srv)
      else
        case peerNa sp of
          None \<Rightarrow> (True, srv)
        | Some na \<Rightarrow>
            if \<not> IsPeerNaValid env na (NA sp) then (True, srv)
            else
              (case DefaultPort cfg of
                 None \<Rightarrow> (True, srv)
               | Some port \<Rightarrow>
                   (let host = IP_String env (IP na) in
                    if IP_To4 env (IP na) then
                      (True,
                       ResolveLocalAddress env IPv4Address
                         (srv\<lparr>state := suggestionIncr (state srv) IPv4Address host\<rparr>)
                         (services srv) port)
                    else if IP_To16 env (IP na) then
                      (True,
                       ResolveLocalAddress env IPv6Address
                         (srv\<lparr>state := suggestionIncr (state srv) IPv6Address host\<rparr>)
                         (services srv) port)
                    else (True, srv))))"

definition handleAddPeerMsg_admit :: "config \<Rightarrow> netenv \<Rightarrow> server \<Rightarrow> serverPeer \<Rightarrow> bool \<times> server" where
  "handleAddPeerMsg_admit cfg env srv sp =
     (let isInboundWhitelisted = (isWhitelisted sp \<and> Inbound sp);
          peerIP = IP (NA sp)
      in
      if MaxSameIP cfg > 0 \<and> \<not> isInboundWhitelisted \<and> \<not> IP_IsLoopback env peerIP
         \<and> ConnectionsWithIP env (state srv) peerIP + 1 > MaxSameIP cfg
      then (False, peerDisconnect srv sp)
      else if Count (state srv) + 1 > MaxPeers cfg \<and> \<not> isInboundWhitelisted
      then (False, peerDisconnect srv sp)
      else if Inbound sp
      then (True,
            srv\<lparr>state := (state srv)\<lparr>inboundPeers :=
                    mapAssign (inboundPeers (state srv)) (ID sp) sp\<rparr>\<rparr>)
      else
        (let ps = (state srv)\<lparr>outboundGroups :=
                      groupIncr (outboundGroups (state srv)) (GroupKey env (NA sp))\<rparr>;
             ps = (if persistent sp
                   then ps\<lparr>persistentPeers := mapAssign (persistentPeers ps) (ID sp) sp\<rparr>
                   else ps\<lparr>outboundPeers := mapAssign (outboundPeers ps) (ID sp) sp\<rparr>)
         in handleAddPeerMsg_discover cfg env (srv\<lparr>state := ps\<rparr>) sp))"

definition handleAddPeerMsg ::
  "config \<Rightarrow> netenv \<Rightarrow> nat \<Rightarrow> server \<Rightarrow> serverPeer option \<Rightarrow> bool \<times> server" where
  "handleAddPeerMsg cfg env now srv spo =
     (case spo of
        None \<Rightarrow> (False, srv)
      | Some sp \<Rightarrow>
          if shutdown srv then (False, peerDisconnect srv sp)
          else
            (case SplitHostPort env (Addr sp) of
               Inl err \<Rightarrow> (False, peerDisconnect srv sp)
             | Inr (host, port) \<Rightarrow>
                 (case banned (state srv) host of
                    None \<Rightarrow> handleAddPeerMsg_admit cfg env srv sp
                  | Some banEnd \<Rightarrow>
                      if now < banEnd then (False, peerDisconnect srv sp)
                      else
                        handleAddPeerMsg_admit cfg env
                          (srv\<lparr>state := (state srv)\<lparr>banned :=
                                  (banned (state srv))(host := None)\<rparr>\<rparr>)
                          sp)))"

text \<open>
  \<open>handleDonePeerMsg\<close>. The list is chosen by the flags of the peer; when the peer
  is in it, the group counter is decremented for an outbound peer whose version is
  known, the connection manager is told, and the peer is deleted.
\<close>

datatype peerList = InboundPeers | OutboundPeers | PersistentPeers


definition setList :: "peerState \<Rightarrow> peerList \<Rightarrow> peers \<Rightarrow> peerState" where
  "setList ps l v =
     (case l of InboundPeers \<Rightarrow> ps\<lparr>inboundPeers := v\<rparr>
      | OutboundPeers \<Rightarrow> ps\<lparr>outboundPeers := v\<rparr>
      | PersistentPeers \<Rightarrow> ps\<lparr>persistentPeers := v\<rparr>)"


definition handleBanPeerMsg :: "config \<Rightarrow> netenv \<Rightarrow> nat \<Rightarrow> server \<Rightarrow> serverPeer \<Rightarrow> server" where
  "handleBanPeerMsg cfg env now srv sp =
     (case SplitHostPort env (Addr sp) of
        Inl err \<Rightarrow> srv
      | Inr (host, port) \<Rightarrow>
          srv\<lparr>state := (state srv)\<lparr>banned :=
                  (banned (state srv))(host \<mapsto> now + BanDuration cfg)\<rparr>\<rparr>)"












text \<open>The state with which \<open>peerHandler\<close> starts.\<close>

definition initialState :: peerState where
  "initialState =
     \<lparr>inboundPeers = [], outboundPeers = [], persistentPeers = [], banned = Map.empty,
      outboundGroups = Map.empty, suggestions = (\<lambda>netKey. [])\<rparr>"

definition initialServer :: "64 word \<Rightarrow> server" where
  "initialServer servicesFlag =
     \<lparr>state = initialState, shutdown = False, services = servicesFlag, localAddresses = [],
      calls = []\<rparr>"









text \<open>
  Example values for the peer handler: IPv4 addresses in dotted form, an environment
  that splits \<open>host:port\<close> at the colon and groups addresses by their first two bytes,
  and an outbound peer with its own address and the address it reports for the node.
\<close>

definition byteString :: "8 word \<Rightarrow> string" where
  "byteString w =
     (let n = unat w in
      (if n \<ge> 100 then [''0123456789'' ! (n div 100)] else [])
      @ (if n \<ge> 10 then [''0123456789'' ! (n div 10 mod 10)] else [])
      @ [''0123456789'' ! (n mod 10)])"

definition ipString :: "ip \<Rightarrow> string" where
  "ipString addr =
     (case addr of
        [a, b, c, d] \<Rightarrow> byteString a @ ''.'' @ byteString b @ ''.'' @ byteString c @ ''.'' @ byteString d
      | _ \<Rightarrow> ''<nil>'')"

definition exampleNetenv :: netenv where
  "exampleNetenv =
     \<lparr>SplitHostPort =
        (\<lambda>a. if CHR '':'' \<in> set a
              then Inr (takeWhile (\<lambda>c. c \<noteq> CHR '':'') a, tl (dropWhile (\<lambda>c. c \<noteq> CHR '':'') a))
              else Inl ''missing port in address''),
      IP_Equal = (\<lambda>a b. a = b),
      IP_IsLoopback = (\<lambda>a. take 1 a = [127]),
      IP_String = ipString,
      IP_To4 = (\<lambda>a. length a = 4),
      IP_To16 = (\<lambda>a. length a = 4 \<or> length a = 16),
      GroupKey = (\<lambda>na. ipString (take 2 (IP na) @ [0, 0])),
      IsPeerNaValid = (\<lambda>na remote. True),
      HostToNetAddress =
        (\<lambda>host port sv.
           if host = ''203.0.113.7'' then Inr \<lparr>IP = [203, 0, 113, 7], Port = port, NA_Services = sv\<rparr>
           else if host = ''198.51.100.9''
           then Inr \<lparr>IP = [198, 51, 100, 9], Port = port, NA_Services = sv\<rparr>
           else Inl ''no such host''),
      addrStringToNetAddr = (\<lambda>a. Inr a)\<rparr>"

definition outboundPeer :: "32 word \<Rightarrow> ip \<Rightarrow> ip \<Rightarrow> serverPeer" where
  "outboundPeer i own reported =
     \<lparr>ID = i, Inbound = False, persistent = False, isWhitelisted = False,
      Addr = ipString own @ '':9108'',
      NA = \<lparr>IP = own, Port = 9108, NA_Services = 1\<rparr>,
      VersionKnown = True, VerAckReceived = True, Connected = True, connReq = Some (unat i),
      peerNa = Some \<lparr>IP = reported, Port = 9108, NA_Services = 1\<rparr>,
      disableRelayTx = False, knownAddresses = []\<rparr>"

definition hostA :: ip where
  "hostA = [203, 0, 113, 7]"


text \<open>The outbound peer with id \<open>i\<close> at 192.0.2.\<open>i\<close>, reporting the given address.\<close>

definition reporting :: "32 word \<Rightarrow> ip \<Rightarrow> serverPeer" where
  "reporting i reported = outboundPeer i [192, 0, 2, ucast i] reported"



text \<open>The initial server after peer 1 was banned at time 100.\<close>

definition bannedServer :: server where
  "bannedServer = handleBanPeerMsg exampleConfig exampleNetenv 100 (initialServer 1) (reporting 1 hostA)"





section \<open>Properties of the sampler and of the rebroadcast handler\<close>

lemma unat_of_nat16: "n < 65536 \<Longrightarrow> unat (of_nat n :: 16 word) = n"
  by (simp add: unat_of_nat)

lemma randomUint16Number_loop_bound:
  "maxv \<noteq> 0 \<Longrightarrow> randomUint16Number_loop maxv lim r reads = Some v \<Longrightarrow> v < maxv"
proof (induction reads arbitrary: r)
  case Nil
  then show ?case by simp
next
  case (Cons rd reads)
  then show ?case
    by (auto simp: Let_def word_mod_less_divisor word_neq_0_conv split: if_splits option.splits)
qed

lemma randomUint16Number_loop_returns:
  "\<exists>v. Some v \<in> set reads \<and> v < lim \<Longrightarrow>
   \<exists>y. randomUint16Number_loop maxv lim r reads = Some y"
proof (induction reads arbitrary: r)
  case Nil
  then show ?case by simp
next
  case (Cons rd reads)
  then show ?case
    by (cases rd) (auto simp: Let_def)
qed

text \<open>
  No modulo bias: every residue below \<open>maxv\<close> is the image of the same number of
  accepted 16-bit samples, namely \<open>65535 div maxv\<close> of them.
\<close>

lemma randomUint16Number_unbiased:
  assumes "maxv \<noteq> 0" "v < unat maxv"
  shows "card {r :: 16 word. r < limitRange maxv \<and> unat (r mod maxv) = v} = unat (65535 div maxv)"
proof -
  let ?m = "unat maxv"
  let ?q = "65535 div ?m"
  have mpos: "0 < ?m" using assms(1) by (simp add: unat_gt_0)
  have q: "unat ((65535::16 word) div maxv) = ?q" by (simp add: unat_div)
  have qm: "?q * ?m \<le> 65535" by simp
  have lim: "unat (limitRange maxv) = ?q * ?m"
  proof -
    have "?q * ?m < 65536" using qm by linarith
    then have "?q * ?m mod 65536 = ?q * ?m" by (rule mod_less)
    moreover have "unat ((65535 div maxv) * maxv) = unat ((65535::16 word) div maxv) * ?m mod 65536"
      by (simp only: unat_word_ariths) simp
    ultimately show ?thesis unfolding limitRange_def by (simp only: q)
  qed
  have bnd: "v + ?m * k < ?q * ?m" if "k < ?q" for k
  proof -
    have "v + ?m * k < ?m * (k + 1)" using assms(2) by simp
    also have "\<dots> \<le> ?m * ?q" using that by (simp only: mult_le_cancel1) simp
    finally show ?thesis by (simp only: mult.commute)
  qed
  have bnd16: "v + ?m * k < 65536" if "k < ?q" for k
    using bnd[OF that] qm by linarith
  have "{r :: 16 word. r < limitRange maxv \<and> unat (r mod maxv) = v} = (\<lambda>k. of_nat (v + ?m * k)) ` {..<?q}"
    (is "?L = ?R")
  proof (rule set_eqI, rule iffI)
    fix r assume "r \<in> ?L"
    then have a: "unat r < ?q * ?m" and b: "unat r mod ?m = v"
      by (simp_all add: word_less_nat_alt lim unat_mod)
    have "unat r div ?m < ?q" using a mpos by (simp add: div_less_iff_less_mult)
    moreover have "r = of_nat (v + ?m * (unat r div ?m))"
    proof -
      have "unat r = v + ?m * (unat r div ?m)" using b by (metis add.commute mult_div_mod_eq)
      then have "of_nat (unat r) = (of_nat (v + ?m * (unat r div ?m)) :: 16 word)" by simp
      then show ?thesis by simp
    qed
    ultimately show "r \<in> ?R" by blast
  next
    fix r assume "r \<in> ?R"
    then obtain k where k: "k < ?q" and r: "r = of_nat (v + ?m * k)" by blast
    have u: "unat r = v + ?m * k" unfolding r using bnd16[OF k] by (rule unat_of_nat16)
    show "r \<in> ?L" using bnd[OF k] u assms(2) by (simp add: word_less_nat_alt lim unat_mod)
  qed
  moreover have "inj_on (\<lambda>k. (of_nat (v + ?m * k) :: 16 word)) {..<?q}"
  proof (rule inj_onI)
    fix x y assume x: "x \<in> {..<?q}" and y: "y \<in> {..<?q}"
      and e: "(of_nat (v + ?m * x) :: 16 word) = of_nat (v + ?m * y)"
    have bx: "v + ?m * x < 65536" using x bnd16 by simp
    have by': "v + ?m * y < 65536" using y bnd16 by simp
    from e have "unat (of_nat (v + ?m * x) :: 16 word) = unat (of_nat (v + ?m * y) :: 16 word)" by simp
    then have "v + ?m * x = v + ?m * y" by (simp only: unat_of_nat16[OF bx] unat_of_nat16[OF by'])
    then show "x = y" using mpos by simp
  qed
  ultimately show ?thesis using q by (simp add: card_image)
qed

lemma limitRange_1800: "limitRange 1800 = 64800"
  by (simp add: limitRange_def)

lemma randomUint16Number_loop_first_accepted:
  "randomUint16Number_loop maxv lim r reads =
     (case dropWhile (\<lambda>x. \<not> x < lim) (readValues r reads) of
        [] \<Rightarrow> None
      | v # rest \<Rightarrow> Some (v mod maxv))"
  by (induction reads arbitrary: r) (simp_all add: Let_def)

lemma dropWhile_hd_accepted:
  "dropWhile (\<lambda>x. \<not> P x) xs = v # rest \<Longrightarrow> P v"
  by (metis (mono_tags, lifting) hd_dropWhile list.distinct(1) list.sel(1))

text \<open>
  C4, as the source has it. When the timer fires, the handler relays the pending
  inventory and resets the timer to \<open>randomUint16Number(1800)\<close> seconds: the values of
  \<open>randomNumber\<close> that are not below the limit 64800 are rejected, and the first one
  below it, taken modulo 1800, is the new delay (the handler has not returned while
  there is none). The delay is therefore a whole number from 0 to 1799, so 0 occurs and
  1800 does not. The handler returns as soon as one read lies below the limit, and
  each of the 1800 delays is the image of exactly 36 of the accepted values, which is
  what makes the delay uniform under a uniform source.
\<close>

theorem timer_reset_range_and_uniformity:
  "rebroadcastHandler ch st (TimerFired reads) =
     (case dropWhile (\<lambda>x. \<not> x < limitRange 1800) (readValues 0 reads) of
        [] \<Rightarrow> Inr None
      | v # rest \<Rightarrow>
          Inr (Some (st\<lparr>relayed := relayed st @
                          map (\<lambda>(iv, d). \<lparr>invVect = iv, data = d, immediate = False\<rparr>)
                              (pendingInvs st),
                        timer := unat (v mod 1800)\<rparr>)))
   \<and> limitRange 1800 = 64800
   \<and> (rebroadcastHandler ch st (TimerFired reads) = Inr (Some st') \<longrightarrow>
        timer st' \<le> 1799
        \<and> (\<exists>v rest. dropWhile (\<lambda>x. \<not> x < limitRange 1800) (readValues 0 reads) = v # rest
               \<and> v < limitRange 1800 \<and> timer st' = unat (v mod 1800)))
   \<and> ((\<exists>v. Some v \<in> set reads \<and> v < limitRange 1800) \<longrightarrow>
        (\<exists>st''. rebroadcastHandler ch st (TimerFired reads) = Inr (Some st'')))
   \<and> (d < 1800 \<longrightarrow> card {r :: 16 word. r < limitRange 1800 \<and> unat (r mod 1800) = d} = 36)"
proof (intro conjI impI)
  show eq: "rebroadcastHandler ch st (TimerFired reads) =
     (case dropWhile (\<lambda>x. \<not> x < limitRange 1800) (readValues 0 reads) of
        [] \<Rightarrow> Inr None
      | v # rest \<Rightarrow>
          Inr (Some (st\<lparr>relayed := relayed st @
                          map (\<lambda>(iv, d). \<lparr>invVect = iv, data = d, immediate = False\<rparr>)
                              (pendingInvs st),
                        timer := unat (v mod 1800)\<rparr>)))"
  proof -
    have h: "rebroadcastHandler ch st (TimerFired reads) =
       (case randomUint16Number_loop 1800 (limitRange 1800) 0 reads of
          None \<Rightarrow> Inr None
        | Some r \<Rightarrow>
            Inr (Some (st\<lparr>relayed := relayed st @
                          map (\<lambda>(iv, d). \<lparr>invVect = iv, data = d, immediate = False\<rparr>)
                              (pendingInvs st),
                        timer := unat r\<rparr>)))"
      by (simp add: randomUint16Number_def Let_def)
    show ?thesis
    proof (cases "dropWhile (\<lambda>x. \<not> x < limitRange 1800) (readValues 0 reads)")
      case Nil
      show ?thesis unfolding h randomUint16Number_loop_first_accepted Nil by simp
    next
      case (Cons v rest)
      show ?thesis unfolding h randomUint16Number_loop_first_accepted Cons by simp
    qed
  qed
  show "limitRange 1800 = 64800" by (rule limitRange_1800)
  assume a: "rebroadcastHandler ch st (TimerFired reads) = Inr (Some st')"
  then obtain v rest where dw: "dropWhile (\<lambda>x. \<not> x < limitRange 1800) (readValues 0 reads) = v # rest"
    and t: "timer st' = unat (v mod 1800)"
    unfolding eq by (auto split: list.splits)
  have acc: "v < limitRange 1800" using dw by (rule dropWhile_hd_accepted)
  have "v mod 1800 < 1800" by (simp add: word_mod_less_divisor)
  then have "unat (v mod 1800) < 1800" by (simp add: word_less_nat_alt)
  then show "timer st' \<le> 1799" using t by simp
  show "\<exists>v rest. dropWhile (\<lambda>x. \<not> x < limitRange 1800) (readValues 0 reads) = v # rest
               \<and> v < limitRange 1800 \<and> timer st' = unat (v mod 1800)"
    using dw acc t by blast
next
  assume "\<exists>v. Some v \<in> set reads \<and> v < limitRange 1800"
  from randomUint16Number_loop_returns[OF this, of 1800 0]
  show "\<exists>st''. rebroadcastHandler ch st (TimerFired reads) = Inr (Some st'')"
    by (auto simp: randomUint16Number_def Let_def)
next
  assume "d < 1800"
  then show "card {r :: 16 word. r < limitRange 1800 \<and> unat (r mod 1800) = d} = 36"
    using randomUint16Number_unbiased[of 1800 d] by simp
qed

text \<open>
  At a concrete firing: the read 65535 is rejected (it would have given 735), the
  failed read leaves it in place and is rejected again, and the read 2007 is accepted
  and gives a delay of 207 seconds.
\<close>

theorem timer_reset_range_and_uniformity_witness:
  "rebroadcastHandler \<lparr>BestSnapshot_Height = 0, CalcNextRequiredStakeDifficulty = Inr 0,
       CheckLiveTicket = (\<lambda>h. False), DetermineTxType = (\<lambda>t. TxTypeRegular),
       IsExpired = (\<lambda>t h. False)\<rparr> rebroadcastInit (TimerFired [Some 65535, None, Some 2007])
     = Inr (Some (rebroadcastInit\<lparr>timer := 207\<rparr>))
   \<and> readValues 0 [Some 65535, None, Some 2007] = [65535, 65535, 2007]
   \<and> dropWhile (\<lambda>x. \<not> x < limitRange 1800) (readValues 0 [Some 65535, None, Some 2007]) = [2007]
   \<and> timer (rebroadcastInit\<lparr>timer := 207\<rparr>) \<le> 1799
   \<and> card {r :: 16 word. r < limitRange 1800 \<and> unat (r mod 1800) = 7} = 36"
  using timer_reset_range_and_uniformity
    [of "\<lparr>BestSnapshot_Height = 0, CalcNextRequiredStakeDifficulty = Inr 0,
       CheckLiveTicket = (\<lambda>h. False), DetermineTxType = (\<lambda>t. TxTypeRegular),
       IsExpired = (\<lambda>t h. False)\<rparr>" rebroadcastInit "[Some 65535, None, Some 2007]"
       "rebroadcastInit\<lparr>timer := 207\<rparr>" 7]
  by (simp add: limitRange_def rebroadcastInit_def)

text \<open>
  C4 as the specification words it asks for a delay in the closed interval from 1 to
  1800 seconds. A first read of 0 is accepted and resets the timer to 0 seconds.
\<close>

theorem timer_reset_zero_counterexample:
  "rebroadcastHandler \<lparr>BestSnapshot_Height = 0, CalcNextRequiredStakeDifficulty = Inr 0,
       CheckLiveTicket = (\<lambda>h. False), DetermineTxType = (\<lambda>t. TxTypeRegular),
       IsExpired = (\<lambda>t h. False)\<rparr> rebroadcastInit (TimerFired [Some 0])
     = Inr (Some (rebroadcastInit\<lparr>timer := 0\<rparr>))
   \<and> timer (rebroadcastInit\<lparr>timer := 0\<rparr>) \<notin> {1..1800}"
  by (simp add: randomUint16Number_def limitRange_def rebroadcastInit_def)

text \<open>
  What the prune loop does with a revocation: the entry is deleted when
  \<open>CheckLiveTicket\<close> answers false for the ticket of its first input, and kept when
  it answers true.
\<close>

lemma pruneEntry_revocation:
  "DetermineTxType ch tx = TxTypeSSRtx \<Longrightarrow> TxIn tx = i # ins \<Longrightarrow>
   pruneEntry ch nextStakeDiff tx = Inr (\<not> CheckLiveTicket ch (PreviousOutPoint_Hash i))"
  by (simp add: pruneEntry_def)

text \<open>
  C1 at a concrete prune request. The pending inventory holds two revocations: the
  first spends ticket 7, which the chain reports live, the second spends ticket 8,
  which is not live. The handler keeps the first and removes the second, the reverse
  of what C1 and the comment above the test in the source (remove the revocation
  when its ticket has been revived) ask for.
\<close>

theorem prune_keeps_revocation_of_live_ticket:
  "rebroadcastHandler
     \<lparr>BestSnapshot_Height = 100, CalcNextRequiredStakeDifficulty = Inr 5,
      CheckLiveTicket = (\<lambda>h. h = 7), DetermineTxType = (\<lambda>t. TxTypeSSRtx),
      IsExpired = (\<lambda>t h. False)\<rparr>
     \<lparr>pendingInvs =
        [(\<lparr>Type = InvTypeTx, Hash = 1\<rparr>,
          TxData \<lparr>TxIn = [\<lparr>PreviousOutPoint_Hash = 7\<rparr>], TxOut = [], Expiry = 0\<rparr>),
         (\<lparr>Type = InvTypeTx, Hash = 2\<rparr>,
          TxData \<lparr>TxIn = [\<lparr>PreviousOutPoint_Hash = 8\<rparr>], TxOut = [], Expiry = 0\<rparr>)],
      timer = 300, relayed = []\<rparr>
     (Modify BroadcastPruneInventory)
   = Inr (Some
     \<lparr>pendingInvs =
        [(\<lparr>Type = InvTypeTx, Hash = 1\<rparr>,
          TxData \<lparr>TxIn = [\<lparr>PreviousOutPoint_Hash = 7\<rparr>], TxOut = [], Expiry = 0\<rparr>)],
      timer = 300, relayed = []\<rparr>)"
  by (simp add: pruneEntry_def)

section \<open>Properties of the misbehaviour score\<close>

lemma drop_bit_word32_le: "drop_bit n (w :: 32 word) \<le> w"
  by (simp add: word_le_nat_alt drop_bit_eq_div unat_div div_le_dividend)

lemma above_ban_above_warn:
  "BanThreshold cfg < score \<Longrightarrow> drop_bit 1 (BanThreshold cfg) < score"
  using drop_bit_word32_le[of 1 "BanThreshold cfg"] by simp

text \<open>
  C5. \<open>addBanScore\<close> calls \<open>BanPeer\<close> and \<open>Disconnect\<close> (both, in this order)
  exactly when banning is enabled, the peer is not whitelisted, the two increments are
  not both zero and the score that \<open>Increase\<close> returns exceeds \<open>BanThreshold\<close>;
  otherwise it calls neither. When banning is disabled, the peer is whitelisted or both
  increments are zero, the ban score is left as it was.
\<close>

theorem addBanScore_policy:
  "(snd (addBanScore cfg ops wl banScore pers transient) = [BanPeer, Disconnect]
      \<longleftrightarrow> (\<not> DisableBanning cfg \<and> \<not> wl \<and> (pers, transient) \<noteq> (0, 0)
           \<and> BanThreshold cfg < snd (Score_Increase ops banScore pers transient)))
   \<and> (snd (addBanScore cfg ops wl banScore pers transient) \<noteq> [BanPeer, Disconnect]
      \<longrightarrow> snd (addBanScore cfg ops wl banScore pers transient) = [])
   \<and> (DisableBanning cfg \<or> wl \<or> (pers = 0 \<and> transient = 0)
      \<longrightarrow> fst (addBanScore cfg ops wl banScore pers transient) = banScore)"
  using above_ban_above_warn[of cfg "snd (Score_Increase ops banScore pers transient)"]
  by (auto simp: addBanScore_def Let_def split: prod.splits)

theorem addBanScore_policy_witness:
  "snd (addBanScore exampleConfig counterOps False 90 0 33) = [BanPeer, Disconnect]
   \<and> snd (addBanScore exampleConfig counterOps False 10 0 33) = []
   \<and> fst (addBanScore exampleConfig counterOps True 90 0 33) = 90"
  using addBanScore_policy[of exampleConfig counterOps False 90 0 33]
    addBanScore_policy[of exampleConfig counterOps False 10 0 33]
    addBanScore_policy[of exampleConfig counterOps True 90 0 33]
  by (simp add: exampleConfig_def counterOps_def)

section \<open>Properties of the getdata reply\<close>

lemma getDataLoop_append:
  "getDataLoop s len i (xs @ ys) st = getDataLoop s len (i + length xs) ys (getDataLoop s len i xs st)"
  by (induction xs arbitrary: i st) simp_all

lemma notFound_getDataItem:
  "notFound (getDataItem s len i iv st) = notFound st @ (if isMiss s iv then [iv] else [])"
  by (cases "Type iv")
     (auto simp: getDataItem_def isMiss_def pushTxMsg_def pushBlockMsg_def Let_def
           split: sum.splits prod.splits)

lemma notFound_getDataLoop:
  "notFound (getDataLoop s len i ivs st) = notFound st @ filter (isMiss s) ivs"
  by (induction ivs arbitrary: i st) (simp_all add: notFound_getDataItem)

lemma numAdded_getDataItem:
  "numAdded (getDataItem s len i iv st) = numAdded st + (if isKnown iv then 1 else 0)"
  by (cases "Type iv")
     (auto simp: getDataItem_def isKnown_def pushTxMsg_def pushBlockMsg_def Let_def
           split: sum.splits prod.splits)

lemma numAdded_getDataLoop:
  "numAdded (getDataLoop s len i ivs st) = numAdded st + length (filter isKnown ivs)"
  by (induction ivs arbitrary: i st) (simp_all add: numAdded_getDataItem)

lemma chans_getDataItem:
  "chans (getDataItem s len i iv st) = chans st @
     [if i = len - 1 \<and> notFound st = [] then Some DoneChan
      else if (i + 1) mod 3 = 0 then Some (Fresh i) else None]"
  by (cases "Type iv")
     (auto simp: getDataItem_def pushTxMsg_def pushBlockMsg_def Let_def
           split: sum.splits prod.splits)

lemma chans_getDataLoop:
  "chans (getDataLoop s len i ivs st) = chans st @
     map (\<lambda>k. if i + k = len - 1 \<and> notFound st = [] \<and> filter (isMiss s) (take k ivs) = []
               then Some DoneChan
               else if (i + k + 1) mod 3 = 0 then Some (Fresh (i + k)) else None)
         [0..<length ivs]"
proof (induction ivs arbitrary: i st)
  case Nil
  then show ?case by simp
next
  case (Cons iv ivs)
  show ?case
    by (simp add: Cons.IH chans_getDataItem notFound_getDataItem map_upt_Suc del: upt_Suc)
qed

lemma actions_getDataItem_miss:
  "isMiss s iv \<Longrightarrow>
   actions (getDataItem s len i iv st) = actions st @
     (case (if i = len - 1 \<and> notFound st = [] then Some DoneChan
            else if (i + 1) mod 3 = 0 then Some (Fresh i) else None) of
        None \<Rightarrow> []
      | Some c \<Rightarrow> ChanSend c # (if i = len - 1 then [ChanRecv c] else []))"
  by (cases "Type iv")
     (auto simp: getDataItem_def isMiss_def pushTxMsg_def pushBlockMsg_def Let_def
           split: sum.splits prod.splits)

lemma specChan_last:
  "invList \<noteq> [] \<Longrightarrow>
   specChan s invList (length invList - 1) =
     (if filter (isMiss s) (butlast invList) = [] then Some DoneChan
      else if length invList mod 3 = 0 then Some (Fresh (length invList - 1)) else None)"
  by (simp add: specChan_def butlast_conv_take)

lemma getDataLoop_last_miss:
  assumes ne: "invList \<noteq> []" and miss: "isMiss s (last invList)"
    and nf0: "notFound st0 = []"
    and c: "specChan s invList (length invList - 1) = Some c"
  shows "\<exists>A. actions (getDataLoop s (length invList) 0 invList st0) = A @ [ChanSend c, ChanRecv c]"
proof -
  let ?pre = "butlast invList" and ?x = "last invList" and ?len = "length invList"
  let ?st = "getDataLoop s ?len 0 ?pre st0"
  have split: "invList = ?pre @ [?x]" using ne by simp
  have "getDataLoop s ?len 0 invList st0 = getDataLoop s ?len 0 (?pre @ [?x]) st0"
    using split by simp
  also have "\<dots> = getDataItem s ?len (length ?pre) ?x ?st"
    by (simp only: getDataLoop_append) simp
  finally have run: "getDataLoop s ?len 0 invList st0 = getDataItem s ?len (?len - 1) ?x ?st"
    by simp
  have nf: "notFound ?st = filter (isMiss s) ?pre"
    by (simp add: notFound_getDataLoop nf0)
  have e1: "?len - 1 + 1 = ?len" using ne by (simp add: Suc_leI)
  have "(if ?len - 1 = ?len - 1 \<and> notFound ?st = [] then Some DoneChan
         else if (?len - 1 + 1) mod 3 = 0 then Some (Fresh (?len - 1)) else None)
        = specChan s invList (?len - 1)"
    unfolding specChan_last[OF ne] nf e1 by simp
  then have "(if ?len - 1 = ?len - 1 \<and> notFound ?st = [] then Some DoneChan
         else if (?len - 1 + 1) mod 3 = 0 then Some (Fresh (?len - 1)) else None) = Some c"
    using c by simp
  then have "actions (getDataItem s ?len (?len - 1) ?x ?st) = actions ?st @ [ChanSend c, ChanRecv c]"
    by (simp only: actions_getDataItem_miss[OF miss]) simp
  then show ?thesis using run by auto
qed

lemma actions_getDataItem_prefix:
  "\<exists>B. actions (getDataItem s len i iv st) = actions st @ B"
  by (cases "Type iv")
     (auto simp: getDataItem_def pushTxMsg_def pushBlockMsg_def Let_def
           split: sum.splits prod.splits)

lemma actions_getDataLoop_prefix:
  "\<exists>B. actions (getDataLoop s len i ivs st) = actions st @ B"
proof (induction ivs arbitrary: i st)
  case Nil
  then show ?case by simp
next
  case (Cons iv ivs)
  obtain B1 where "actions (getDataItem s len i iv st) = actions st @ B1"
    using actions_getDataItem_prefix by blast
  moreover obtain B2 where "actions (getDataLoop s len (i + 1) ivs (getDataItem s len i iv st))
      = actions (getDataItem s len i iv st) @ B2"
    using Cons.IH by blast
  ultimately show ?case by simp
qed

lemma actions_getDataItem_found:
  "isKnown iv \<Longrightarrow> \<not> isMiss s iv \<Longrightarrow>
   \<exists>m. QueueMessage m (if i = len - 1 \<and> notFound st = [] then Some DoneChan
                        else if (i + 1) mod 3 = 0 then Some (Fresh i) else None)
        \<in> set (actions (getDataItem s len i iv st))"
  by (cases "Type iv")
     (auto simp: getDataItem_def isMiss_def isKnown_def pushTxMsg_def pushBlockMsg_def Let_def
           split: sum.splits prod.splits)

lemma getDataLoop_at:
  assumes i: "i < length invList" and nf0: "notFound st0 = []"
  shows "\<exists>st1 B. notFound st1 = filter (isMiss s) (take i invList)
           \<and> actions (getDataLoop s (length invList) 0 invList st0)
               = actions (getDataItem s (length invList) i (invList ! i) st1) @ B"
proof -
  let ?len = "length invList"
  let ?st1 = "getDataLoop s ?len 0 (take i invList) st0"
  have split: "invList = take i invList @ (invList ! i # drop (Suc i) invList)"
    using i by (simp add: id_take_nth_drop[symmetric])
  have "getDataLoop s ?len 0 invList st0
        = getDataLoop s ?len 0 (take i invList @ (invList ! i # drop (Suc i) invList)) st0"
    using split by simp
  also have "\<dots> = getDataLoop s ?len (i + 1) (drop (Suc i) invList)
                     (getDataItem s ?len i (invList ! i) ?st1)"
    using i by (simp only: getDataLoop_append) (simp add: min_def)
  finally have "getDataLoop s ?len 0 invList st0
        = getDataLoop s ?len (i + 1) (drop (Suc i) invList) (getDataItem s ?len i (invList ! i) ?st1)" .
  moreover obtain B where
    "actions (getDataLoop s ?len (i + 1) (drop (Suc i) invList) (getDataItem s ?len i (invList ! i) ?st1))
       = actions (getDataItem s ?len i (invList ! i) ?st1) @ B"
    using actions_getDataLoop_prefix by blast
  moreover have "notFound ?st1 = filter (isMiss s) (take i invList)"
    by (simp add: notFound_getDataLoop nf0)
  ultimately show ?thesis by metis
qed

lemma getDataLoop_item_channel:
  assumes i: "i < length invList" and nf0: "notFound st0 = []" and known: "isKnown (invList ! i)"
  shows "if isMiss s (invList ! i)
         then (\<forall>c. specChan s invList i = Some c \<longrightarrow>
                 ChanSend c \<in> set (actions (getDataLoop s (length invList) 0 invList st0)))
         else (\<exists>m. QueueMessage m (specChan s invList i)
                 \<in> set (actions (getDataLoop s (length invList) 0 invList st0)))"
proof -
  obtain st1 B where nf: "notFound st1 = filter (isMiss s) (take i invList)"
    and act: "actions (getDataLoop s (length invList) 0 invList st0)
               = actions (getDataItem s (length invList) i (invList ! i) st1) @ B"
    using getDataLoop_at[OF i nf0] by blast
  have c: "(if i = length invList - 1 \<and> notFound st1 = [] then Some DoneChan
            else if (i + 1) mod 3 = 0 then Some (Fresh i) else None) = specChan s invList i"
    by (simp add: specChan_def nf)
  show ?thesis
  proof (cases "isMiss s (invList ! i)")
    case True
    have "actions (getDataItem s (length invList) i (invList ! i) st1) = actions st1 @
       (case specChan s invList i of None \<Rightarrow> []
        | Some c \<Rightarrow> ChanSend c # (if i = length invList - 1 then [ChanRecv c] else []))"
      using actions_getDataItem_miss[OF True, of "length invList" i st1] by (simp only: c)
    then show ?thesis using True act by auto
  next
    case False
    from actions_getDataItem_found[OF known False, of i "length invList" st1]
    obtain m where "QueueMessage m (specChan s invList i)
        \<in> set (actions (getDataItem s (length invList) i (invList ! i) st1))"
      by (auto simp only: c)
    then show ?thesis using False act by auto
  qed
qed


text \<open>
  C2. For a non-empty getdata message: the completion channel of every iteration is the
  one the specification names (\<open>specChan\<close>); a known item that is found has a message
  queued with that channel, and one that is missed has that channel signalled by the
  failed push; the not-found list holds the missed items in order; when the last item
  is a miss that was given a channel, the trace ends with the failed push's signal on
  it, its consumption, the not-found message queued with the done channel, and the
  final wait; a non-empty not-found message is the last message queued, with the done
  channel; and when at least one item was processed the callback's last action is the
  receive from the done channel.
\<close>

theorem OnGetData_channel_protocol:
  assumes ne: "invList \<noteq> []"
    and run: "OnGetData cfg ops s wl banScore contHash invList = (banScore', st)"
  shows "chans st = map (specChan s invList) [0..<length invList]
    \<and> (\<forall>i. i < length invList \<and> isKnown (invList ! i) \<longrightarrow>
          (if isMiss s (invList ! i)
           then (\<forall>c. specChan s invList i = Some c \<longrightarrow> ChanSend c \<in> set (actions st))
           else (\<exists>m. QueueMessage m (specChan s invList i) \<in> set (actions st))))
    \<and> notFound st = filter (isMiss s) invList
    \<and> numAdded st = length (filter isKnown invList)
    \<and> (isMiss s (last invList) \<longrightarrow>
         (\<forall>c. specChan s invList (length invList - 1) = Some c \<longrightarrow>
           (\<exists>A. actions st = A @ [ChanSend c, ChanRecv c,
                                  QueueMessage (MsgNotFound (notFound st)) (Some DoneChan),
                                  ChanRecv DoneChan])))
    \<and> (notFound st \<noteq> [] \<longrightarrow>
         (\<exists>A. actions st = A @ [QueueMessage (MsgNotFound (notFound st)) (Some DoneChan),
                                ChanRecv DoneChan]))
    \<and> (numAdded st > 0 \<longrightarrow> (\<exists>A. actions st = A @ [ChanRecv DoneChan]))"
proof -
  obtain bs1 banActs where ban:
    "addBanScore cfg ops wl banScore 0 (of_nat (length invList) * 99 div MaxInvPerMsg)
       = (bs1, banActs)"
    by (cases "addBanScore cfg ops wl banScore 0 (of_nat (length invList) * 99 div MaxInvPerMsg)")
  let ?st0 = "\<lparr>notFound = [], numAdded = 0, waitChan = None, continueHash = contHash,
               actions = banActs, chans = []\<rparr>"
  let ?l = "getDataLoop s (length invList) 0 invList ?st0"
  let ?nfq = "if notFound ?l \<noteq> [] then [QueueMessage (MsgNotFound (notFound ?l)) (Some DoneChan)] else []"
  let ?w = "if numAdded ?l > 0 then [ChanRecv DoneChan] else []"
  have st: "st = ?l\<lparr>actions := actions ?l @ ?nfq @ ?w\<rparr>"
    using run ne ban by (auto simp: OnGetData_def Let_def)
  have nf: "notFound ?l = filter (isMiss s) invList" by (simp add: notFound_getDataLoop)
  have na: "numAdded ?l = length (filter isKnown invList)" by (simp add: numAdded_getDataLoop)
  have ch: "chans ?l = map (specChan s invList) [0..<length invList]"
    by (auto simp: chans_getDataLoop specChan_def)
  have known_miss: "isKnown iv" if "isMiss s iv" for iv
    using that by (cases "Type iv") (simp_all add: isMiss_def isKnown_def)
  have napos: "numAdded ?l > 0" if "notFound ?l \<noteq> []"
  proof -
    from that obtain iv where "iv \<in> set invList" "isMiss s iv"
      unfolding nf by (metis filter_False)
    then have "filter isKnown invList \<noteq> []" using known_miss by (auto simp: filter_empty_conv)
    then show ?thesis by (simp add: na)
  qed
  have sub: "set (actions ?l) \<subseteq> set (actions st)" using st by auto
  have c0: "if isMiss s (invList ! i)
            then (\<forall>c. specChan s invList i = Some c \<longrightarrow> ChanSend c \<in> set (actions st))
            else (\<exists>m. QueueMessage m (specChan s invList i) \<in> set (actions st))"
    if "i < length invList \<and> isKnown (invList ! i)" for i
  proof -
    have i: "i < length invList" and k: "isKnown (invList ! i)" using that by simp_all
    have nf0: "notFound ?st0 = []" by simp
    show ?thesis using getDataLoop_item_channel[OF i nf0 k, of s] sub
      by (auto split: if_splits)
  qed
  have c1: "chans st = map (specChan s invList) [0..<length invList]" using st ch by simp
  have c2: "notFound st = filter (isMiss s) invList" using st nf by simp
  have c3: "numAdded st = length (filter isKnown invList)" using st na by simp
  have c4: "\<exists>A. actions st = A @ [ChanSend c, ChanRecv c,
              QueueMessage (MsgNotFound (notFound st)) (Some DoneChan), ChanRecv DoneChan]"
    if miss: "isMiss s (last invList)" and c: "specChan s invList (length invList - 1) = Some c" for c
  proof -
    from getDataLoop_last_miss[OF ne miss _ c, of ?st0]
    obtain A where A: "actions ?l = A @ [ChanSend c, ChanRecv c]" by auto
    have "last invList \<in> set invList" using ne by simp
    then have nfne: "notFound ?l \<noteq> []" using miss by (auto simp: nf filter_empty_conv)
    show ?thesis using st A nfne napos[OF nfne] by simp
  qed
  have c5: "\<exists>A. actions st = A @ [QueueMessage (MsgNotFound (notFound st)) (Some DoneChan),
                                 ChanRecv DoneChan]" if "notFound st \<noteq> []"
  proof -
    have nfne: "notFound ?l \<noteq> []" using that st by simp
    show ?thesis using st nfne napos[OF nfne] by simp
  qed
  have c6: "\<exists>A. actions st = A @ [ChanRecv DoneChan]" if "numAdded st > 0"
  proof -
    have "numAdded ?l > 0" using that st by simp
    then have "actions st = (actions ?l @ ?nfq) @ [ChanRecv DoneChan]" using st by simp
    then show ?thesis by blast
  qed
  show ?thesis using c0 c1 c2 c3 c4 c5 c6 by blast
qed

lemma runSignals_append:
  "runSignals b (xs @ ys) = Option.bind (runSignals b xs) (\<lambda>b'. runSignals b' ys)"
proof (induction xs arbitrary: b)
  case Nil
  then show ?case by simp
next
  case (Cons a xs)
  show ?case
  proof (cases a)
    case (QueueMessage m dc)
    then show ?thesis by (cases dc) (simp_all add: Cons.IH fun_upd_def)
  qed (simp_all add: Cons.IH fun_upd_def)
qed

lemma getDataItem_keeps_fed:
  assumes "runSignals b0 (actions st) = Some b" and "fed b (waitChan st)" and "i \<noteq> len - 1"
  shows "\<exists>b'. runSignals b0 (actions (getDataItem s len i iv st)) = Some b'
              \<and> fed b' (waitChan (getDataItem s len i iv st))"
  using assms
  by (cases "Type iv"; cases "waitChan st")
     (auto simp: getDataItem_def pushTxMsg_def pushBlockMsg_def Let_def runSignals_append fed_def
           split: sum.splits prod.splits)

lemma getDataLoop_keeps_fed:
  "i + length ivs \<le> len - 1 \<Longrightarrow> runSignals b0 (actions st) = Some b \<Longrightarrow> fed b (waitChan st) \<Longrightarrow>
   \<exists>b'. runSignals b0 (actions (getDataLoop s len i ivs st)) = Some b'
        \<and> fed b' (waitChan (getDataLoop s len i ivs st))"
proof (induction ivs arbitrary: i st b)
  case Nil
  then show ?case by simp
next
  case (Cons iv ivs)
  have "i \<noteq> len - 1" using Cons.prems(1) by simp
  from getDataItem_keeps_fed[OF Cons.prems(2) Cons.prems(3) this, of s iv]
  obtain b1 where b1: "runSignals b0 (actions (getDataItem s len i iv st)) = Some b1"
    and f1: "fed b1 (waitChan (getDataItem s len i iv st))" by blast
  have "i + 1 + length ivs \<le> len - 1" using Cons.prems(1) by simp
  from Cons.IH[OF this b1 f1] show ?case by simp
qed

lemma runSignals_banActs:
  "runSignals b (snd (addBanScore cfg ops w bs p t)) = Some b"
  by (auto simp: addBanScore_def Let_def split: prod.splits)


lemma getDataItem_last_fed:
  assumes "runSignals b0 (actions st) = Some b" and "fed b (waitChan st)"
  shows "\<exists>b'. runSignals b0 (actions (getDataItem s len (len - 1) iv st)) = Some b'
              \<and> (notFound (getDataItem s len (len - 1) iv st) = [] \<and> isKnown iv
                   \<longrightarrow> b' DoneChan \<ge> 1)"
  using assms
  by (cases "Type iv"; cases "waitChan st")
     (auto simp: getDataItem_def pushTxMsg_def pushBlockMsg_def Let_def runSignals_append fed_def
             isKnown_def
           split: sum.splits prod.splits)

text \<open>
  Every receive of the callback finds a signal, the final wait on the done channel
  included, whenever the last item is of a known type or some item was missed.
\<close>

lemma OnGetData_signals_fed:
  assumes ne: "invList \<noteq> []"
    and known: "isKnown (last invList) \<or> filter (isMiss s) invList \<noteq> []"
  shows "\<exists>b. runSignals (\<lambda>c. 0)
               (actions (snd (OnGetData cfg ops s wl banScore contHash invList))) = Some b"
proof -
  let ?len = "length invList"
  let ?ban = "addBanScore cfg ops wl banScore 0 (of_nat ?len * 99 div MaxInvPerMsg)"
  let ?st0 = "\<lparr>notFound = [], numAdded = 0, waitChan = None, continueHash = contHash,
               actions = snd ?ban, chans = []\<rparr>"
  let ?pre = "butlast invList" and ?x = "last invList"
  let ?st1 = "getDataLoop s ?len 0 ?pre ?st0"
  let ?l = "getDataItem s ?len (?len - 1) ?x ?st1"
  let ?nfq = "if notFound ?l \<noteq> [] then [QueueMessage (MsgNotFound (notFound ?l)) (Some DoneChan)] else []"
  let ?w = "if numAdded ?l > 0 then [ChanRecv DoneChan] else []"
  have split: "invList = ?pre @ [?x]" using ne by simp
  have "getDataLoop s ?len 0 invList ?st0 = getDataLoop s ?len 0 (?pre @ [?x]) ?st0"
    using split by simp
  also have "\<dots> = getDataItem s ?len (length ?pre) ?x ?st1"
    by (simp only: getDataLoop_append) simp
  finally have loop: "getDataLoop s ?len 0 invList ?st0 = ?l" by simp
  have fin: "actions (snd (OnGetData cfg ops s wl banScore contHash invList))
             = actions ?l @ ?nfq @ ?w"
    using ne loop by (cases ?ban) (auto simp: OnGetData_def Let_def)
  have nf: "notFound ?l = filter (isMiss s) invList"
    unfolding loop[symmetric] by (simp add: notFound_getDataLoop)
  have "runSignals (\<lambda>c. 0) (actions ?st0) = Some (\<lambda>c. 0)" by (simp add: runSignals_banActs)
  moreover have "fed (\<lambda>c. 0) (waitChan ?st0)" by (simp add: fed_def)
  moreover have "0 + length ?pre \<le> ?len - 1" by simp
  ultimately obtain b1 where b1: "runSignals (\<lambda>c. 0) (actions ?st1) = Some b1"
    and f1: "fed b1 (waitChan ?st1)"
    using getDataLoop_keeps_fed[of 0 ?pre ?len "\<lambda>c. 0" ?st0 "\<lambda>c. 0" s] by blast
  from getDataItem_last_fed[OF b1 f1, of s ?len ?x]
  obtain b2 where b2: "runSignals (\<lambda>c. 0) (actions ?l) = Some b2"
    and d2: "notFound ?l = [] \<and> isKnown ?x \<longrightarrow> b2 DoneChan \<ge> 1" by blast
  have "notFound ?l \<noteq> [] \<or> b2 DoneChan \<ge> 1" using d2 known nf by auto
  then have "\<exists>b. runSignals b2 (?nfq @ ?w) = Some b" by auto
  then show ?thesis unfolding fin by (simp only: runSignals_append b2) simp
qed

text \<open>
  C10. When the fetch fails, \<open>pushTxMsg\<close> and \<open>pushBlockMsg\<close> return the error,
  queue no message, wait on nothing, and their only action is one send on the
  completion channel when the caller gave one; \<open>pushBlockMsg\<close> leaves the continue hash
  as it was. In \<open>OnGetData\<close>, a getdata message with a missed item then never has a
  receive without a signal: the consumption after a final miss and the final wait on
  the done channel are both provided for.
\<close>

theorem push_fetch_failure_signals_once:
  "(FetchTransaction s hash = Inl err \<longrightarrow>
      pushTxMsg s hash doneChan waitCh
        = (Some err, case doneChan of None \<Rightarrow> [] | Some c \<Rightarrow> [ChanSend c]))
   \<and> (BlockByHash s hash = Inl err \<longrightarrow>
      pushBlockMsg s contHash hash doneChan waitCh
        = (Some err, contHash, case doneChan of None \<Rightarrow> [] | Some c \<Rightarrow> [ChanSend c]))
   \<and> (filter (isMiss s) invList \<noteq> [] \<longrightarrow>
      (\<exists>b. runSignals (\<lambda>c. 0)
             (actions (snd (OnGetData cfg ops s wl banScore contHash invList))) = Some b))"
proof (intro conjI impI)
  assume "filter (isMiss s) invList \<noteq> []"
  then have "invList \<noteq> []" by auto
  then show "\<exists>b. runSignals (\<lambda>c. 0)
             (actions (snd (OnGetData cfg ops s wl banScore contHash invList))) = Some b"
    using \<open>filter (isMiss s) invList \<noteq> []\<close> by (intro OnGetData_signals_fed) simp_all
qed (simp_all add: pushTxMsg_def pushBlockMsg_def)

theorem OnGetData_channel_protocol_witness:
  "exampleInvList \<noteq> []
   \<and> isMiss exampleStores (last exampleInvList)
   \<and> specChan exampleStores exampleInvList (length exampleInvList - 1) = Some DoneChan
   \<and> chans (snd (OnGetData exampleConfig counterOps exampleStores False 0 None exampleInvList))
       = [None, None, Some DoneChan]
   \<and> notFound (snd (OnGetData exampleConfig counterOps exampleStores False 0 None exampleInvList))
       = [\<lparr>Type = InvTypeBlock, Hash = 20\<rparr>]
   \<and> (\<exists>A. actions (snd (OnGetData exampleConfig counterOps exampleStores False 0 None
                         exampleInvList))
        = A @ [ChanSend DoneChan, ChanRecv DoneChan,
               QueueMessage (MsgNotFound [\<lparr>Type = InvTypeBlock, Hash = 20\<rparr>]) (Some DoneChan),
               ChanRecv DoneChan])"
proof -
  let ?r = "OnGetData exampleConfig counterOps exampleStores False 0 None exampleInvList"
  have ne: "exampleInvList \<noteq> []" by (simp add: exampleInvList_def)
  have run: "?r = (fst ?r, snd ?r)" by simp
  have miss: "isMiss exampleStores (last exampleInvList)"
    by (simp add: isMiss_def exampleStores_def exampleInvList_def)
  have sc: "specChan exampleStores exampleInvList (length exampleInvList - 1) = Some DoneChan"
    by (simp add: specChan_def isMiss_def exampleStores_def exampleInvList_def)
  have sc0: "map (specChan exampleStores exampleInvList) [0..<length exampleInvList]
             = [None, None, Some DoneChan]"
    by (simp add: specChan_def isMiss_def exampleStores_def exampleInvList_def upt_rec)
  have nf: "filter (isMiss exampleStores) exampleInvList = [\<lparr>Type = InvTypeBlock, Hash = 20\<rparr>]"
    by (simp add: isMiss_def exampleStores_def exampleInvList_def)
  note t = OnGetData_channel_protocol[OF ne run]
  have a: "chans (snd ?r) = [None, None, Some DoneChan]"
    using t[THEN conjunct1] by (simp only: sc0)
  have b: "notFound (snd ?r) = [\<lparr>Type = InvTypeBlock, Hash = 20\<rparr>]"
    using t[THEN conjunct2, THEN conjunct2, THEN conjunct1] by (simp only: nf)
  have "\<exists>A. actions (snd ?r) = A @ [ChanSend DoneChan, ChanRecv DoneChan,
               QueueMessage (MsgNotFound (notFound (snd ?r))) (Some DoneChan), ChanRecv DoneChan]"
    using t[THEN conjunct2, THEN conjunct2, THEN conjunct2, THEN conjunct2, THEN conjunct1,
            rule_format, OF miss sc] .
  then have c: "\<exists>A. actions (snd ?r) = A @ [ChanSend DoneChan, ChanRecv DoneChan,
               QueueMessage (MsgNotFound [\<lparr>Type = InvTypeBlock, Hash = 20\<rparr>]) (Some DoneChan),
               ChanRecv DoneChan]"
    by (simp only: b)
  show ?thesis using ne miss sc a b c by blast
qed

theorem push_fetch_failure_signals_once_witness:
  "pushTxMsg exampleStores 20 (Some (Fresh 2)) (Some (Fresh 1))
       = (Some ''not in pool'', [ChanSend (Fresh 2)])
   \<and> pushBlockMsg exampleStores (Some 3) 20 (Some (Fresh 2)) (Some (Fresh 1))
        = (Some ''no such block'', Some 3, [ChanSend (Fresh 2)])
   \<and> (\<exists>b. runSignals (\<lambda>c. 0)
         (actions (snd (OnGetData exampleConfig counterOps exampleStores False 0 (Some 3)
                          exampleInvList))) = Some b)"
proof -
  have f1: "FetchTransaction exampleStores 20 = Inl ''not in pool''"
    by (simp add: exampleStores_def)
  have f2: "BlockByHash exampleStores 20 = Inl ''no such block''"
    by (simp add: exampleStores_def)
  have nf: "filter (isMiss exampleStores) exampleInvList \<noteq> []"
    by (simp add: isMiss_def exampleStores_def exampleInvList_def)
  have a: "pushTxMsg exampleStores 20 (Some (Fresh 2)) (Some (Fresh 1))
       = (Some ''not in pool'', [ChanSend (Fresh 2)])"
    using push_fetch_failure_signals_once[of exampleStores 20 "''not in pool''" "Some (Fresh 2)"
      "Some (Fresh 1)" "Some 3" exampleInvList exampleConfig counterOps False 0,
      THEN conjunct1, rule_format, OF f1] by simp
  have b: "pushBlockMsg exampleStores (Some 3) 20 (Some (Fresh 2)) (Some (Fresh 1))
        = (Some ''no such block'', Some 3, [ChanSend (Fresh 2)])"
    using push_fetch_failure_signals_once[of exampleStores 20 "''no such block''" "Some (Fresh 2)"
      "Some (Fresh 1)" "Some 3" exampleInvList exampleConfig counterOps False 0,
      THEN conjunct2, THEN conjunct1, rule_format, OF f2] by simp
  have c: "\<exists>b. runSignals (\<lambda>c. 0)
         (actions (snd (OnGetData exampleConfig counterOps exampleStores False 0 (Some 3)
                          exampleInvList))) = Some b"
    using push_fetch_failure_signals_once[of exampleStores 20 "''no such block''" "Some (Fresh 2)"
      "Some (Fresh 1)" "Some 3" exampleInvList exampleConfig counterOps False 0,
      THEN conjunct2, THEN conjunct2, rule_format, OF nf] .
  show ?thesis using a b c by blast
qed

section \<open>Properties of the version handshake\<close>

lemma missing_full_node:
  "\<not> hasServices svc SFNodeNetwork \<Longrightarrow> SFNodeNetwork AND NOT svc = 1"
proof -
  assume "\<not> hasServices svc SFNodeNetwork"
  then have "even svc"
    by (auto simp: hasServices_def SFNodeNetwork_def and_one_eq split: if_splits)
  then have "odd (NOT svc)" by simp
  then have "NOT svc mod 2 = 1" by (simp only: odd_iff_mod_2_eq_one)
  then show ?thesis by (simp add: SFNodeNetwork_def one_and_eq)
qed

lemma sprintf_hex_1: "sprintf_hex 1 = ''0x1''"
  by (simp add: sprintf_hex_def hexDigit_def numeral_eq_Suc)

text \<open>
  C7, as the source has it. For an outbound peer whose version message has a protocol
  version of at least the minimum and whose services lack the full-node bit,
  \<open>OnVersion\<close> returns a reject message whose reason holds the missing services in
  hexadecimal (always \<open>0x1\<close>), leaves the peer's fields as they were and makes no
  call but one: unless the node runs on the simulation network, it has recorded the
  advertised services in the address manager before the gates. So \<open>AddPeer\<close>, the
  block manager, the time source, the address push, getaddr and \<open>Good\<close> are not
  reached. For any peer whose protocol version is below the minimum, \<open>OnVersion\<close>
  returns no reject message, leaves the peer's fields as they were, and its only call
  is that same record of the services, made for an outbound peer off the simulation
  network.
\<close>

theorem OnVersion_rejects_non_full_node:
  "(\<not> Inbound sp \<and> \<not> hasServices (Services msg) SFNodeNetwork
      \<and> InitialProcotolVersion \<le> ProtocolVersion msg \<longrightarrow>
      OnVersion cfg env sp msg =
        (Some \<lparr>Cmd = ''version'', Code = RejectNonstandard,
               Reason = ''required services ''
                        @ sprintf_hex (SFNodeNetwork AND NOT (Services msg))
                        @ '' not offered''\<rparr>,
         sp,
         if SimNet cfg then [] else [SetServices (NA sp) (Services msg)])
      \<and> sprintf_hex (SFNodeNetwork AND NOT (Services msg)) = ''0x1'')
   \<and> (ProtocolVersion msg < InitialProcotolVersion \<longrightarrow>
      OnVersion cfg env sp msg =
        (None, sp,
         if \<not> SimNet cfg \<and> \<not> Inbound sp then [SetServices (NA sp) (Services msg)] else []))"
proof (intro conjI impI)
  assume a: "\<not> Inbound sp \<and> \<not> hasServices (Services msg) SFNodeNetwork
      \<and> InitialProcotolVersion \<le> ProtocolVersion msg"
  then have m: "SFNodeNetwork AND NOT (Services msg) = 1" by (simp add: missing_full_node)
  show "OnVersion cfg env sp msg =
        (Some \<lparr>Cmd = ''version'', Code = RejectNonstandard,
               Reason = ''required services ''
                        @ sprintf_hex (SFNodeNetwork AND NOT (Services msg))
                        @ '' not offered''\<rparr>,
         sp,
         if SimNet cfg then [] else [SetServices (NA sp) (Services msg)])"
    using a m by (simp add: OnVersion_def Let_def)
  show "sprintf_hex (SFNodeNetwork AND NOT (Services msg)) = ''0x1''"
    by (simp add: m sprintf_hex_1)
next
  assume "ProtocolVersion msg < InitialProcotolVersion"
  then show "OnVersion cfg env sp msg =
        (None, sp,
         if \<not> SimNet cfg \<and> \<not> Inbound sp then [SetServices (NA sp) (Services msg)] else [])"
    by (simp add: OnVersion_def Let_def)
qed

theorem OnVersion_rejects_non_full_node_witness:
  "\<not> Inbound examplePeer \<and> \<not> hasServices (Services (exampleVersion 0 6)) SFNodeNetwork
   \<and> InitialProcotolVersion \<le> ProtocolVersion (exampleVersion 0 6)
   \<and> OnVersion exampleConfig exampleVersionEnv examplePeer (exampleVersion 0 6)
       = (Some \<lparr>Cmd = ''version'', Code = RejectNonstandard,
                 Reason = ''required services 0x1 not offered''\<rparr>,
          examplePeer, [SetServices exampleAddr 0])
   \<and> ProtocolVersion (exampleVersion 0 0) < InitialProcotolVersion
   \<and> OnVersion exampleConfig exampleVersionEnv examplePeer (exampleVersion 0 0)
       = (None, examplePeer, [SetServices exampleAddr 0])"
proof -
  have a: "\<not> Inbound examplePeer" by (simp add: examplePeer_def)
  have b: "\<not> hasServices (Services (exampleVersion 0 6)) SFNodeNetwork"
    by (simp add: exampleVersion_def hasServices_def SFNodeNetwork_def)
  have c: "InitialProcotolVersion \<le> ProtocolVersion (exampleVersion 0 6)"
    by (simp add: exampleVersion_def InitialProcotolVersion_def)
  have d: "ProtocolVersion (exampleVersion 0 0) < InitialProcotolVersion"
    by (simp add: exampleVersion_def InitialProcotolVersion_def)
  from OnVersion_rejects_non_full_node[of examplePeer "exampleVersion 0 6" exampleConfig
      exampleVersionEnv, THEN conjunct1, rule_format, OF conjI[OF a conjI[OF b c]]]
  have e: "OnVersion exampleConfig exampleVersionEnv examplePeer (exampleVersion 0 6)
       = (Some \<lparr>Cmd = ''version'', Code = RejectNonstandard,
                 Reason = ''required services 0x1 not offered''\<rparr>,
          examplePeer, [SetServices exampleAddr 0])"
    by (simp add: exampleConfig_def examplePeer_def exampleVersion_def)
  from OnVersion_rejects_non_full_node[of examplePeer "exampleVersion 0 0" exampleConfig
      exampleVersionEnv, THEN conjunct2, rule_format, OF d]
  have f: "OnVersion exampleConfig exampleVersionEnv examplePeer (exampleVersion 0 0)
       = (None, examplePeer, [SetServices exampleAddr 0])"
    by (simp add: exampleConfig_def examplePeer_def exampleVersion_def)
  show ?thesis using a b c d e f by blast
qed

text \<open>
  C7 as the specification words it fails twice. With services 0 and protocol version 6,
  the outbound peer is rejected, and the address manager has been updated for it
  (\<open>SetServices\<close>). With services 0 and protocol version 0, below the minimum,
  \<open>OnVersion\<close> returns no reject message at all.
\<close>

theorem OnVersion_reject_updates_address_manager_counterexample:
  "OnVersion exampleConfig exampleVersionEnv examplePeer (exampleVersion 0 6)
     = (Some \<lparr>Cmd = ''version'', Code = RejectNonstandard,
               Reason = ''required services 0x1 not offered''\<rparr>,
        examplePeer, [SetServices exampleAddr 0])
   \<and> OnVersion exampleConfig exampleVersionEnv examplePeer (exampleVersion 0 0)
     = (None, examplePeer, [SetServices exampleAddr 0])"
  by (simp add: OnVersion_def Let_def sprintf_hex_1
       exampleConfig_def examplePeer_def exampleVersion_def hasServices_def SFNodeNetwork_def
       InitialProcotolVersion_def)

section \<open>Properties of the peer handler\<close>


lemma keys_mapAssign: "fst ` set (mapAssign m k v) = insert k (fst ` set m)"
  by (auto simp: mapAssign_def image_iff split: if_splits prod.splits) force+

lemma keys_mapDelete: "fst ` set (mapDelete m k) = fst ` set m - {k}"
  by (auto simp: mapDelete_def image_iff) 

lemma distinct_mapDelete: "distinct (map fst m) \<Longrightarrow> distinct (map fst (mapDelete m k))"
  by (simp add: mapDelete_def distinct_map_filter)




lemma ResolveLocalAddress_state [simp]:
  "state (ResolveLocalAddress env netKey srv sv port) = state srv"
  by (simp add: ResolveLocalAddress_def AddLocalAddress_def Let_def split: prod.splits sum.splits)

lemma ResolveLocalAddress_calls [simp]:
  "calls (ResolveLocalAddress env netKey srv sv port) = calls srv"
  by (simp add: ResolveLocalAddress_def AddLocalAddress_def Let_def split: prod.splits sum.splits)

lemma suggestionIncr_fields [simp]:
  "inboundPeers (suggestionIncr ps k h) = inboundPeers ps"
  "outboundPeers (suggestionIncr ps k h) = outboundPeers ps"
  "persistentPeers (suggestionIncr ps k h) = persistentPeers ps"
  "banned (suggestionIncr ps k h) = banned ps"
  "outboundGroups (suggestionIncr ps k h) = outboundGroups ps"
  by (simp_all add: suggestionIncr_def)

lemma discover_fields [simp]:
  "inboundPeers (state (snd (handleAddPeerMsg_discover cfg env srv sp))) = inboundPeers (state srv)"
  "outboundPeers (state (snd (handleAddPeerMsg_discover cfg env srv sp))) = outboundPeers (state srv)"
  "persistentPeers (state (snd (handleAddPeerMsg_discover cfg env srv sp))) = persistentPeers (state srv)"
  "banned (state (snd (handleAddPeerMsg_discover cfg env srv sp))) = banned (state srv)"
  "outboundGroups (state (snd (handleAddPeerMsg_discover cfg env srv sp))) = outboundGroups (state srv)"
  "calls (snd (handleAddPeerMsg_discover cfg env srv sp)) = calls srv"
  "fst (handleAddPeerMsg_discover cfg env srv sp) = True"
  by (simp_all add: handleAddPeerMsg_discover_def Let_def split: option.splits)

text \<open>The registry and the group counters after the limits and the registration.\<close>

lemma admit_rejected:
  "\<not> fst (handleAddPeerMsg_admit cfg env srv sp) \<Longrightarrow>
   handleAddPeerMsg_admit cfg env srv sp = (False, peerDisconnect srv sp)"
  by (auto simp: handleAddPeerMsg_admit_def Let_def split: if_splits)

lemma admit_accepted:
  assumes "fst (handleAddPeerMsg_admit cfg env srv sp)"
  shows "inboundPeers (state (snd (handleAddPeerMsg_admit cfg env srv sp)))
           = (if Inbound sp then mapAssign (inboundPeers (state srv)) (ID sp) sp
              else inboundPeers (state srv))"
    and "outboundPeers (state (snd (handleAddPeerMsg_admit cfg env srv sp)))
           = (if \<not> Inbound sp \<and> \<not> persistent sp
              then mapAssign (outboundPeers (state srv)) (ID sp) sp
              else outboundPeers (state srv))"
    and "persistentPeers (state (snd (handleAddPeerMsg_admit cfg env srv sp)))
           = (if \<not> Inbound sp \<and> persistent sp
              then mapAssign (persistentPeers (state srv)) (ID sp) sp
              else persistentPeers (state srv))"
    and "outboundGroups (state (snd (handleAddPeerMsg_admit cfg env srv sp)))
           = (if \<not> Inbound sp
              then groupIncr (outboundGroups (state srv)) (GroupKey env (NA sp))
              else outboundGroups (state srv))"
    and "banned (state (snd (handleAddPeerMsg_admit cfg env srv sp))) = banned (state srv)"
    and "calls (snd (handleAddPeerMsg_admit cfg env srv sp)) = calls srv"
  using assms
  by (auto simp: handleAddPeerMsg_admit_def Let_def peerDisconnect_def split: if_splits)



lemma getList_setList [simp]:
  "inboundPeers (setList ps l v) = (if l = InboundPeers then v else inboundPeers ps)"
  "outboundPeers (setList ps l v) = (if l = OutboundPeers then v else outboundPeers ps)"
  "persistentPeers (setList ps l v) = (if l = PersistentPeers then v else persistentPeers ps)"
  "outboundGroups (setList ps l v) = outboundGroups ps"
  "banned (setList ps l v) = banned ps"
  "suggestions (setList ps l v) = suggestions ps"
  by (cases l; simp add: setList_def)+


lemma handleBanPeerMsg_registry [simp]:
  "inboundPeers (state (handleBanPeerMsg cfg env now srv sp)) = inboundPeers (state srv)"
  "outboundPeers (state (handleBanPeerMsg cfg env now srv sp)) = outboundPeers (state srv)"
  "persistentPeers (state (handleBanPeerMsg cfg env now srv sp)) = persistentPeers (state srv)"
  "outboundGroups (state (handleBanPeerMsg cfg env now srv sp)) = outboundGroups (state srv)"
  by (simp_all add: handleBanPeerMsg_def split: sum.splits)

text \<open>
  C6. For a peer whose address splits into a host that has an entry in the ban list:
  while the clock is before the expiry, \<open>handleAddPeerMsg\<close> disconnects the peer and
  leaves the peer state as it was, so the peer enters no registry map (this also holds
  during shutdown). Once the clock has reached the expiry, and the server is not
  shutting down, the result is the one for the state without the entry (admission goes
  on as if the host had not been banned), and the entry is gone from the ban list
  afterwards.
\<close>

theorem handleAddPeerMsg_banned:
  assumes "SplitHostPort env (Addr sp) = Inr (host, port)"
    and "banned (state srv) host = Some banEnd"
  shows "(now < banEnd \<longrightarrow>
            handleAddPeerMsg cfg env now srv (Some sp) = (False, peerDisconnect srv sp)
            \<and> state (snd (handleAddPeerMsg cfg env now srv (Some sp))) = state srv
            \<and> calls (snd (handleAddPeerMsg cfg env now srv (Some sp)))
                = calls srv @ [DisconnectPeer (ID sp)])
       \<and> (banEnd \<le> now \<and> \<not> shutdown srv \<longrightarrow>
            handleAddPeerMsg cfg env now srv (Some sp)
              = handleAddPeerMsg cfg env now
                  (srv\<lparr>state := (state srv)\<lparr>banned := (banned (state srv))(host := None)\<rparr>\<rparr>)
                  (Some sp)
            \<and> banned (state (snd (handleAddPeerMsg cfg env now srv (Some sp)))) host = None)"
proof (intro conjI impI)
  assume "now < banEnd"
  then show r: "handleAddPeerMsg cfg env now srv (Some sp) = (False, peerDisconnect srv sp)"
    using assms by (simp add: handleAddPeerMsg_def)
  show "state (snd (handleAddPeerMsg cfg env now srv (Some sp))) = state srv"
    by (simp add: r peerDisconnect_def)
  show "calls (snd (handleAddPeerMsg cfg env now srv (Some sp))) = calls srv @ [DisconnectPeer (ID sp)]"
    by (simp add: r peerDisconnect_def)
next
  let ?srv = "srv\<lparr>state := (state srv)\<lparr>banned := (banned (state srv))(host := None)\<rparr>\<rparr>"
  assume a: "banEnd \<le> now \<and> \<not> shutdown srv"
  have l: "handleAddPeerMsg cfg env now srv (Some sp) = handleAddPeerMsg_admit cfg env ?srv sp"
    using assms a by (simp add: handleAddPeerMsg_def)
  have r: "handleAddPeerMsg cfg env now ?srv (Some sp) = handleAddPeerMsg_admit cfg env ?srv sp"
    using assms a by (simp add: handleAddPeerMsg_def)
  show "handleAddPeerMsg cfg env now srv (Some sp) = handleAddPeerMsg cfg env now ?srv (Some sp)"
    by (simp only: l r)
  have "banned (state (snd (handleAddPeerMsg_admit cfg env ?srv sp))) = banned (state ?srv)"
  proof (cases "fst (handleAddPeerMsg_admit cfg env ?srv sp)")
    case True
    then show ?thesis by (rule admit_accepted(5))
  next
    case False
    then show ?thesis by (simp add: admit_rejected[OF False] peerDisconnect_def)
  qed
  then show "banned (state (snd (handleAddPeerMsg cfg env now srv (Some sp)))) host = None"
    by (simp add: l)
qed











































subsection \<open>The peer handler on example runs\<close>


text \<open>
  A host in the ban list of \<open>bannedServer\<close> until 86500: before the expiry the peer is
  disconnected and the state kept, after it the entry is gone.
\<close>

theorem handleAddPeerMsg_banned_witness:
  "SplitHostPort exampleNetenv (Addr (reporting 1 hostA)) = Inr (''192.0.2.1'', ''9108'')
   \<and> banned (state bannedServer) ''192.0.2.1'' = Some 86500
   \<and> handleAddPeerMsg exampleConfig exampleNetenv 200 bannedServer (Some (reporting 1 hostA))
       = (False, peerDisconnect bannedServer (reporting 1 hostA))
   \<and> state (snd (handleAddPeerMsg exampleConfig exampleNetenv 200 bannedServer
                    (Some (reporting 1 hostA)))) = state bannedServer
   \<and> \<not> shutdown bannedServer
   \<and> banned (state (snd (handleAddPeerMsg exampleConfig exampleNetenv 90000 bannedServer
                            (Some (reporting 1 hostA))))) ''192.0.2.1'' = None"
proof -
  have s: "SplitHostPort exampleNetenv (Addr (reporting 1 hostA)) = Inr (''192.0.2.1'', ''9108'')"
    by (simp add: exampleNetenv_def reporting_def outboundPeer_def ipString_def byteString_def hostA_def)
  have b: "banned (state bannedServer) ''192.0.2.1'' = Some 86500"
    by (simp add: bannedServer_def handleBanPeerMsg_def s exampleConfig_def)
  have ns: "\<not> shutdown bannedServer"
    by (simp add: bannedServer_def handleBanPeerMsg_def s initialServer_def)
  have lt: "(200::nat) < 86500" by simp
  have ge: "(86500::nat) \<le> 90000 \<and> \<not> shutdown bannedServer" using ns by simp
  note t1 = handleAddPeerMsg_banned[OF s b, of 200 exampleConfig, THEN conjunct1, rule_format, OF lt]
  note t2 = handleAddPeerMsg_banned[OF s b, of 90000 exampleConfig, THEN conjunct2, rule_format, OF ge]
  show ?thesis using s b ns t1 t2 by blast
qed












end
